theory Spec2Isabelle
  imports Main "HOL-Library.AList" "HOL-Library.Sublist"
begin

section \<open>Exceptions and basic values\<close>

text \<open>
  Every exception the two modules can raise is a value; a function that may raise returns
  \<open>error + 'a\<close> with the exception on the left. The string is the message, or for
  \<open>KeyError\<close> the missing key and for \<open>AttributeError\<close> the missing attribute.
\<close>

datatype error =
    ValueError string
  | TypeError string
  | KeyError string
  | AttributeError string
  | IndexError string
  | OSError string
  | UnboundLocalError string

text \<open>
  A coordinate label. \<open>np.arange\<close> produces integer labels; a caller's coordinates may also
  be names.
\<close>

datatype label = IntLabel int | StrLabel string

text \<open>
  A numpy array is represented by its shape. The samples themselves are only carried along
  (or permuted) by the operations below; dimension names and coordinate labels are computed
  from the shape alone.
\<close>

datatype ndarray = Ndarray (shape: "nat list")

text \<open>
  A Python \<open>dict\<close> with string keys is an association list in insertion order:
  \<open>d[k] = v\<close> is \<open>AList.update k v d\<close> (replace in place, or append), \<open>d[k]\<close> and
  \<open>d.get(k)\<close> are \<open>map_of d k\<close>.
\<close>

type_synonym 'v dict = "(string \<times> 'v) list"

type_synonym coords = "label list dict"

text \<open>
  \<open>xr.DataArray\<close>: the array with its ordered dimension names and the index variable of
  each dimension. \<open>xr.Dataset\<close> is held as the mapping \<open>data_vars\<close> it is built from.
\<close>

record data_array =
  da_values :: ndarray
  da_dims :: "string list"
  da_coords :: coords

datatype dataset = Dataset (data_vars: "data_array dict")

section \<open>numpy and xarray operations used by the converters\<close>

definition arange :: "nat \<Rightarrow> label list" where
  "arange n = map (\<lambda>i. IntLabel (int i)) [0..<n]"

text \<open>\<open>np.atleast_3d\<close> on shapes: \<open>()\<close>, \<open>(n,)\<close> and \<open>(m, n)\<close> are padded to three axes.\<close>

fun atleast_3d :: "ndarray \<Rightarrow> ndarray" where
  "atleast_3d (Ndarray []) = Ndarray [1, 1, 1]"
| "atleast_3d (Ndarray [n]) = Ndarray [1, n, 1]"
| "atleast_3d (Ndarray [m, n]) = Ndarray [m, n, 1]"
| "atleast_3d (Ndarray s) = Ndarray s"

text \<open>\<open>np.squeeze(ary, axis=-1)\<close>: drops the last axis, which must have length one.\<close>

definition squeeze_last :: "ndarray \<Rightarrow> error + ndarray" where
  "squeeze_last ary =
     (if shape ary \<noteq> [] \<and> last (shape ary) = 1 then Inr (Ndarray (butlast (shape ary)))
      else Inl (ValueError ''cannot select an axis to squeeze out which has size not equal to one''))"

text \<open>\<open>str(n)\<close> for a non-negative integer, as \<open>str.format\<close> renders \<open>{idx}\<close>.\<close>

fun string_of_nat :: "nat \<Rightarrow> string" where
  "string_of_nat n =
     (if n < 10 then [''0123456789'' ! n]
      else string_of_nat (n div 10) @ [''0123456789'' ! (n mod 10)])"

declare string_of_nat.simps [simp del]

text \<open>
  \<open>xr.DataArray(ary, coords=coords, dims=dims)\<close>: the library refuses a number of dimension
  names different from the number of axes, and an index whose length is not the length of
  its axis.
\<close>

definition xr_DataArray :: "ndarray \<Rightarrow> coords \<Rightarrow> string list \<Rightarrow> error + data_array" where
  "xr_DataArray ary cs dims =
     (if length dims \<noteq> length (shape ary)
      then Inl (ValueError ''different number of dimensions on data and dims'')
      else if list_all2 (\<lambda>d n. case map_of cs d of None \<Rightarrow> True | Some ls \<Rightarrow> length ls = n)
                dims (shape ary)
      then Inr \<lparr>da_values = ary, da_dims = dims, da_coords = cs\<rparr>
      else Inl (ValueError ''conflicting sizes for dimension''))"

section \<open>\<open>numpy_to_data_array\<close> and \<open>dict_to_dataset\<close>\<close>

definition default_dims :: "string list" where
  "default_dims = [''chain'', ''draw'']"

text \<open>
  The loop of lines 149 to 151: for every trailing axis, append the dimension name
  \<open>{var_name}_dim_{idx}\<close> and store \<open>np.arange(dim_len)\<close> under that name.
\<close>

definition dim_name :: "string \<Rightarrow> nat \<Rightarrow> string" where
  "dim_name var_name idx = var_name @ ''_dim_'' @ string_of_nat idx"

fun add_trailing :: "string \<Rightarrow> (nat \<times> nat) list \<Rightarrow> string list \<Rightarrow> coords \<Rightarrow> string list \<times> coords" where
  "add_trailing var_name [] dims cs = (dims, cs)"
| "add_trailing var_name ((idx, dim_len) # rest) dims cs =
     (let dims' = dims @ [dim_name var_name idx]
      in add_trailing var_name rest dims' (AList.update (last dims') (arange dim_len) cs))"

text \<open>
  Lines 133 to 151, the branch \<open>dims is None\<close>: the array (reshaped if it had fewer than three
  axes), the dimension names and the coordinates. The caller's \<open>coords\<close> is discarded here
  (line 144). The warning of line 140 only reports and is described by \<open>warns_more_chains\<close>.
\<close>

definition infer_dims :: "ndarray \<Rightarrow> string \<Rightarrow> error + (ndarray \<times> string list \<times> coords)" where
  "infer_dims ary var_name =
     (let can_squeeze = (length (shape ary) < 3);
          ary1 = (if can_squeeze then atleast_3d ary else ary)
      in case shape ary1 of
           n_chains # n_samples # shp \<Rightarrow>
             if can_squeeze \<and> length shp = 1 \<and> shp ! 0 = 1
             then (case squeeze_last ary1 of
                     Inl e \<Rightarrow> Inl e
                   | Inr ary2 \<Rightarrow> Inr (ary2, default_dims, []))
             else (case add_trailing var_name (enumerate 0 shp) default_dims [] of
                     (dims, cs) \<Rightarrow> Inr (ary1, dims, cs))
         | _ \<Rightarrow> Inl (ValueError ''not enough values to unpack (expected at least 2)''))"

definition warns_more_chains :: "ndarray \<Rightarrow> bool" where
  "warns_more_chains ary =
     (case shape (if length (shape ary) < 3 then atleast_3d ary else ary) of
        n_chains # n_samples # _ \<Rightarrow> n_chains > n_samples
      | _ \<Rightarrow> False)"

text \<open>
  Lines 153 to 156, the branch of caller-supplied \<open>dims\<close>: \<open>dict(coords)\<close> raises TypeError on
  \<open>None\<close>; \<open>chain\<close> and \<open>draw\<close> are put in front unless the list already starts with them.
\<close>

definition given_dims :: "coords option \<Rightarrow> string list \<Rightarrow> error + (string list \<times> coords)" where
  "given_dims coords dims =
     (case coords of
        None \<Rightarrow> Inl (TypeError ''NoneType object is not iterable'')
      | Some cs \<Rightarrow> Inr (if take 2 dims \<noteq> default_dims then default_dims @ dims else dims, cs))"

text \<open>
  Line 163, the dict comprehension over \<open>dims\<close>: \<open>coords[key]\<close> raises KeyError at the first
  dimension name that has no coordinates.
\<close>

fun build_index :: "string list \<Rightarrow> coords \<Rightarrow> coords \<Rightarrow> error + coords" where
  "build_index [] cs acc = Inr acc"
| "build_index (key # rest) cs acc =
     (case map_of cs key of
        None \<Rightarrow> Inl (KeyError key)
      | Some v \<Rightarrow> build_index rest cs (AList.update key v acc))"

text \<open>Lines 157 to 164, common to both branches.\<close>

definition label_and_wrap :: "ndarray \<Rightarrow> string list \<Rightarrow> coords \<Rightarrow> error + data_array" where
  "label_and_wrap ary dims cs =
     (case shape ary of
        n_chains # n_samples # _ \<Rightarrow>
          (let cs1 = (if map_of cs ''chain'' = None
                      then AList.update ''chain'' (arange n_chains) cs else cs);
               cs2 = (if map_of cs1 ''draw'' = None
                      then AList.update ''draw'' (arange n_samples) cs1 else cs1)
           in case build_index dims cs2 [] of
                Inl e \<Rightarrow> Inl e
              | Inr idx \<Rightarrow> xr_DataArray ary idx dims)
      | _ \<Rightarrow> Inl (ValueError ''not enough values to unpack (expected at least 2)''))"

definition numpy_to_data_array ::
  "ndarray \<Rightarrow> string \<Rightarrow> coords option \<Rightarrow> string list option \<Rightarrow> error + data_array" where
  "numpy_to_data_array ary var_name coords dims =
     (case dims of
        None \<Rightarrow>
          (case infer_dims ary var_name of
             Inl e \<Rightarrow> Inl e
           | Inr (ary', dims', cs) \<Rightarrow> label_and_wrap ary' dims' cs)
      | Some ds \<Rightarrow>
          (case given_dims coords ds of
             Inl e \<Rightarrow> Inl e
           | Inr (dims', cs) \<Rightarrow> label_and_wrap ary dims' cs))"

text \<open>
  \<open>dict_to_dataset\<close>: one labeled array per entry of \<open>data\<close>, in order; the first exception
  ends the loop. \<open>dims.get(key)\<close> is \<open>None\<close> for a variable without an entry.
\<close>

fun dict_to_dataset_loop ::
  "ndarray dict \<Rightarrow> coords option \<Rightarrow> string list dict \<Rightarrow> data_array dict \<Rightarrow> error + data_array dict" where
  "dict_to_dataset_loop [] coords dims acc = Inr acc"
| "dict_to_dataset_loop ((key, vals) # rest) coords dims acc =
     (case numpy_to_data_array vals key coords (map_of dims key) of
        Inl e \<Rightarrow> Inl e
      | Inr da \<Rightarrow> dict_to_dataset_loop rest coords dims (AList.update key da acc))"

definition dict_to_dataset ::
  "ndarray dict \<Rightarrow> coords option \<Rightarrow> string list dict option \<Rightarrow> error + dataset" where
  "dict_to_dataset data coords dims =
     (let dims' = (case dims of None \<Rightarrow> [] | Some d \<Rightarrow> d)
      in case dict_to_dataset_loop data coords dims' [] of
           Inl e \<Rightarrow> Inl e
         | Inr dv \<Rightarrow> Inr (Dataset dv))"

section \<open>Text processing of \<open>PyStanConverter.infer_dtypes\<close>\<close>

text \<open>
  Python strings are modelled as \<open>string\<close>, one \<open>char\<close> per code point; the model therefore
  covers program text whose code points are below 256. \<open>is_space\<close> is the class \<open>\s\<close> of
  \<open>re\<close> on \<open>str\<close> patterns, which is also what \<open>str.strip\<close> removes, on that range.
\<close>

definition is_space :: "char \<Rightarrow> bool" where
  "is_space c = (of_char c \<in> {9, 10, 11, 12, 13, 28, 29, 30, 31, 32, 133, 160 :: nat})"

text \<open>The line boundaries of \<open>str.splitlines\<close> on that range; \<open>\r\n\<close> counts as one.\<close>

definition is_linebreak :: "char \<Rightarrow> bool" where
  "is_linebreak c = (of_char c \<in> {10, 11, 12, 13, 28, 29, 30, 133 :: nat})"

fun splitlines_aux :: "string \<Rightarrow> string \<Rightarrow> string list" where
  "splitlines_aux cur [] = (if cur = [] then [] else [cur])"
| "splitlines_aux cur [c] = (if is_linebreak c then [cur] else [cur @ [c]])"
| "splitlines_aux cur (c # d # cs) =
     (if c = CHR 0x0D \<and> d = CHR 0x0A then cur # splitlines_aux [] cs
      else if is_linebreak c then cur # splitlines_aux [] (d # cs)
      else splitlines_aux (cur @ [c]) (d # cs))"

definition splitlines :: "string \<Rightarrow> string list" where
  "splitlines s = splitlines_aux [] s"

text \<open>\<open>sep.join(parts)\<close>.\<close>

fun join :: "string \<Rightarrow> string list \<Rightarrow> string" where
  "join sep [] = []"
| "join sep [x] = x"
| "join sep (x # y # ys) = x @ sep @ join sep (y # ys)"

text \<open>Lines 282 to 284: a line is cut at its first \<open>#\<close>.\<close>

definition strip_hash :: "string \<Rightarrow> string" where
  "strip_hash line =
     (if CHR ''#'' \<notin> set line then line else takeWhile (\<lambda>c. c \<noteq> CHR ''#'') line)"

text \<open>
  \<open>pattern_remove_comments\<close>, with DOTALL and MULTILINE. Each function gives the number of
  characters that the rest of an alternative consumes after its opening characters.
  \<open>block_end\<close>: \<open>.*?\*/\<close> after \<open>/*\<close>, up to and including the first \<open>*/\<close>.
  \<open>string_end q\<close>: \<open>(?:\\.|[^\\q])*q\<close> after the opening quote \<open>q\<close>; the two alternatives of
  the group start with different characters, so the only match is the greedy one.
\<close>

fun block_end :: "string \<Rightarrow> nat option" where
  "block_end (c # d # cs) =
     (if c = CHR ''*'' \<and> d = CHR ''/'' then Some 2 else map_option Suc (block_end (d # cs)))"
| "block_end _ = None"

fun string_end :: "char \<Rightarrow> string \<Rightarrow> nat option" where
  "string_end q [] = None"
| "string_end q [c] = (if c = q then Some 1 else None)"
| "string_end q (c # d # cs) =
     (if c = q then Some 1
      else if c = CHR 0x5C then map_option (\<lambda>k. k + 2) (string_end q cs)
      else map_option Suc (string_end q (d # cs)))"

text \<open>
  The length of the match of \<open>pattern_remove_comments\<close> at the start of the text, if there is
  one. \<open>//.*?$\<close> ends before the next \<open>\n\<close> or at the end of the text.
\<close>

fun match_comment :: "string \<Rightarrow> nat option" where
  "match_comment (c # d # cs) =
     (if c = CHR ''/'' \<and> d = CHR ''/'' then Some (2 + length (takeWhile (\<lambda>x. x \<noteq> CHR 0x0A) cs))
      else if c = CHR ''/'' \<and> d = CHR ''*'' then map_option (\<lambda>k. k + 2) (block_end cs)
      else if c = CHR 0x27 \<or> c = CHR 0x22 then map_option Suc (string_end c (d # cs))
      else None)"
| "match_comment _ = None"

text \<open>\<open>re.sub(pattern_remove_comments, "", stan_code)\<close>: matches are found left to right.\<close>

fun remove_comments :: "string \<Rightarrow> string" where
  "remove_comments [] = []"
| "remove_comments (c # cs) =
     (case match_comment (c # cs) of
        Some n \<Rightarrow> remove_comments (drop (n - 1) cs)
      | None \<Rightarrow> c # remove_comments cs)"

text \<open>
  \<open>str.split(sep)\<close> for a non-empty separator: the pieces between the occurrences of \<open>sep\<close>,
  found left to right without overlap.
\<close>

fun py_split_aux :: "string \<Rightarrow> string \<Rightarrow> string \<Rightarrow> string list" where
  "py_split_aux sep cur [] = [cur]"
| "py_split_aux sep cur (c # cs) =
     (if sep \<noteq> [] \<and> prefix sep (c # cs)
      then cur # py_split_aux sep [] (drop (length sep) (c # cs))
      else py_split_aux sep (cur @ [c]) cs)"

definition py_split :: "string \<Rightarrow> string \<Rightarrow> string list" where
  "py_split sep s = py_split_aux sep [] s"

text \<open>
  \<open>pattern_int\<close>, with IGNORECASE: the letters \<open>int\<close>, white space, any number of groups
  \<open><...>\<close> (\<open>stan_limits\<close>), white space, and the captured name \<open>stan_param\<close>, one or more
  characters other than \<open>;\<close>, \<open>=\<close>, \<open>[\<close> and white space.
  \<open>limit_body\<close> is \<open>[^>]+>\<close> after a \<open><\<close>. \<open>limit_rests\<close> lists what can follow the
  repeated group, most repetitions first, as the greedy star tries them.
\<close>

definition is_param :: "char \<Rightarrow> bool" where
  "is_param c = (c \<noteq> CHR '';'' \<and> c \<noteq> CHR ''='' \<and> c \<noteq> CHR ''['' \<and> \<not> is_space c)"

definition limit_body :: "string \<Rightarrow> nat option" where
  "limit_body cs =
     (let b = takeWhile (\<lambda>x. x \<noteq> CHR ''>'') cs
      in if b \<noteq> [] \<and> length b < length cs then Some (length b + 1) else None)"

fun limit_rests :: "string \<Rightarrow> string list" where
  "limit_rests [] = [[]]"
| "limit_rests (c # cs) =
     (if c = CHR ''<''
      then (case limit_body cs of
              Some n \<Rightarrow> limit_rests (drop n cs) @ [c # cs]
            | None \<Rightarrow> [c # cs])
      else [c # cs])"

text \<open>
  After the repeated group: \<open>\s*\<close> and the captured name. The result is the name and the text
  that follows it.
\<close>

definition match_param :: "string \<Rightarrow> (string \<times> string) option" where
  "match_param r =
     (let r' = dropWhile is_space r;
          p = takeWhile is_param r'
      in if p = [] then None else Some (p, dropWhile is_param r'))"

fun first_match :: "string list \<Rightarrow> (string \<times> string) option" where
  "first_match [] = None"
| "first_match (r # rs) = (case match_param r of Some m \<Rightarrow> Some m | None \<Rightarrow> first_match rs)"

definition is_int_keyword :: "char \<Rightarrow> char \<Rightarrow> char \<Rightarrow> bool" where
  "is_int_keyword a b c =
     ((a = CHR ''i'' \<or> a = CHR ''I'') \<and> (b = CHR ''n'' \<or> b = CHR ''N'') \<and>
      (c = CHR ''t'' \<or> c = CHR ''T''))"

text \<open>The match of \<open>pattern_int\<close> at the start of the text: the captured name and the rest.\<close>

fun match_int :: "string \<Rightarrow> (string \<times> string) option" where
  "match_int (a # b # c # r) =
     (if is_int_keyword a b c then first_match (limit_rests (dropWhile is_space r)) else None)"
| "match_int _ = None"

text \<open>\<open>re.findall(pattern_int, stan_code)\<close>: the captured names, left to right.\<close>

fun findall_int :: "string \<Rightarrow> string list" where
  "findall_int [] = []"
| "findall_int (c # cs) =
     (case match_int (c # cs) of
        Some (p, rest) \<Rightarrow> p # findall_int (drop (length cs - length rest) cs)
      | None \<Rightarrow> findall_int cs)"

text \<open>\<open>str.strip()\<close>.\<close>

definition py_strip :: "string \<Rightarrow> string" where
  "py_strip s = rev (dropWhile is_space (rev (dropWhile is_space s)))"

text \<open>
  Line 288, the dict comprehension: every found name that is a model parameter gets the
  value \<open>'int'\<close>.
\<close>

fun dtypes_of :: "string list \<Rightarrow> string list \<Rightarrow> string dict \<Rightarrow> string dict" where
  "dtypes_of var_names [] acc = acc"
| "dtypes_of var_names (item # items) acc =
     (if py_strip item \<in> set var_names
      then dtypes_of var_names items (AList.update (py_strip item) ''int'' acc)
      else dtypes_of var_names items acc)"

text \<open>
  The text that \<open>re.findall\<close> is applied to: the program without \<open>#\<close> comments, then without
  the matches of \<open>pattern_remove_comments\<close>, then the last piece of the split at
  \<open>generated quantities\<close>. \<open>str.split\<close> never returns an empty list, so \<open>[-1]\<close> is \<open>last\<close>.
\<close>

definition strip_comments :: "string \<Rightarrow> string" where
  "strip_comments stan_code =
     remove_comments (join [CHR 0x0A] (map strip_hash (splitlines stan_code)))"

definition scanned_text :: "string \<Rightarrow> string" where
  "scanned_text stan_code = last (py_split ''generated quantities'' (strip_comments stan_code))"

text \<open>
  \<open>infer_dtypes\<close>, as a function of what it reads from the fit: \<open>fit.get_stancode()\<close> and
  \<open>fit.model_pars\<close>.
\<close>

definition infer_dtypes :: "string \<Rightarrow> string list \<Rightarrow> string dict" where
  "infer_dtypes stan_code var_names = dtypes_of var_names (findall_int (scanned_text stan_code)) []"

section \<open>The container and the framework converters\<close>

text \<open>
  Modelled from the spec: the class \<open>InferenceData\<close> of the package (imported in line 7, its
  module is not among the sources) is the named-group container holding datasets. It is
  modelled by the keyword arguments it is constructed from, in order: the group names with
  their datasets, \<open>None\<close> for a group that was passed as \<open>None\<close>.
  \<open>getattr(inference_data, group, None)\<close> reads a group.
\<close>

datatype inference_data = InferenceData (groups: "dataset option dict")

definition getattr_group :: "inference_data \<Rightarrow> string \<Rightarrow> dataset option" where
  "getattr_group idata group_name =
     (case map_of (groups idata) group_name of Some (Some ds) \<Rightarrow> Some ds | _ \<Rightarrow> None)"

text \<open>
  numpy on shapes. \<open>np.swapaxes(a, 0, 1)\<close> needs two axes; \<open>np.expand_dims(a, 0)\<close> adds a
  leading axis; \<open>np.vstack\<close> stacks arrays of at least one axis row-wise after
  \<open>np.atleast_2d\<close>, and refuses an empty list and rows of different shapes.
\<close>

definition np_swapaxes01 :: "ndarray \<Rightarrow> error + ndarray" where
  "np_swapaxes01 a =
     (case shape a of
        m # n # rest \<Rightarrow> Inr (Ndarray (n # m # rest))
      | _ \<Rightarrow> Inl (ValueError ''axis1: axis 1 is out of bounds for array''))"

definition np_expand_dims0 :: "ndarray \<Rightarrow> ndarray" where
  "np_expand_dims0 a = Ndarray (1 # shape a)"

fun atleast_2d :: "ndarray \<Rightarrow> ndarray" where
  "atleast_2d (Ndarray []) = Ndarray [1, 1]"
| "atleast_2d (Ndarray [n]) = Ndarray [1, n]"
| "atleast_2d (Ndarray s) = Ndarray s"

definition np_vstack :: "ndarray list \<Rightarrow> error + ndarray" where
  "np_vstack arrays =
     (case map (shape \<circ> atleast_2d) arrays of
        [] \<Rightarrow> Inl (ValueError ''need at least one array to concatenate'')
      | s # ss \<Rightarrow>
          if \<forall>t\<in>set ss. tl t = tl s
          then Inr (Ndarray (sum_list (map hd (s # ss)) # tl s))
          else Inl (ValueError ''all the input array dimensions except for the concatenation axis must match exactly''))"

text \<open>
  A PyMC3 \<open>MultiTrace\<close>, by what the converter reads from it: the names that
  \<open>pm.utils.get_default_varnames(trace.varnames, include_transformed=False)\<close> keeps,
  \<open>np.array(trace.get_values(v, combine=False))\<close> for each variable, \<open>trace.stat_names\<close> and
  \<open>np.array(trace.get_sampler_stats(s, combine=False))\<close> for each statistic. Asking for a
  name the trace does not hold raises KeyError.
\<close>

record multitrace =
  mt_default_varnames :: "string list"
  mt_values :: "ndarray dict"
  mt_stat_names :: "string list"
  mt_sampler_stats :: "ndarray dict"

text \<open>
  A PyStan \<open>StanFit4Model\<close>, by what the converter reads from it: \<open>fit.model_pars\<close>,
  \<open>fit.get_stancode()\<close>, the result of \<open>fit.extract(..., permuted=False)\<close> (whose shapes do not
  depend on the \<open>dtypes\<close> passed) and \<open>fit.get_sampler_params(inc_warmup=False)\<close>, one
  dictionary per chain.
\<close>

record stan_fit =
  sf_model_pars :: "string list"
  sf_stancode :: string
  sf_extract :: "ndarray dict"
  sf_sampler_params :: "ndarray dict list"

text \<open>The decorator \<open>requires\<close>: the method returns \<open>None\<close> when the attribute is \<open>None\<close>.\<close>

definition requires :: "'p option \<Rightarrow> ('p \<Rightarrow> error + dataset) \<Rightarrow> error + dataset option" where
  "requires prop func =
     (case prop of
        None \<Rightarrow> Inr None
      | Some p \<Rightarrow> (case func p of Inl e \<Rightarrow> Inl e | Inr ds \<Rightarrow> Inr (Some ds)))"

text \<open>The loops \<open>data[name] = source[name]\<close> over a list of names.\<close>

fun collect_vars :: "string list \<Rightarrow> ndarray dict \<Rightarrow> ndarray dict \<Rightarrow> error + ndarray dict" where
  "collect_vars [] src acc = Inr acc"
| "collect_vars (v # vs) src acc =
     (case map_of src v of
        None \<Rightarrow> Inl (KeyError v)
      | Some a \<Rightarrow> collect_vars vs src (AList.update v a acc))"

text \<open>\<open>{k: np.expand_dims(v, 0) for k, v in d.items()}\<close>.\<close>

fun expand_all :: "ndarray dict \<Rightarrow> ndarray dict \<Rightarrow> ndarray dict" where
  "expand_all [] acc = acc"
| "expand_all ((k, v) # rest) acc = expand_all rest (AList.update k (np_expand_dims0 v) acc)"

record pymc3_converter =
  pm_trace :: "multitrace option"
  pm_prior :: "ndarray dict option"
  pm_posterior_predictive :: "ndarray dict option"
  pm_coords :: "coords option"
  pm_dims :: "string list dict option"

definition pm_posterior_to_xarray :: "pymc3_converter \<Rightarrow> error + dataset option" where
  "pm_posterior_to_xarray self =
     requires (pm_trace self) (\<lambda>trace.
       case collect_vars (mt_default_varnames trace) (mt_values trace) [] of
         Inl e \<Rightarrow> Inl e
       | Inr data \<Rightarrow> dict_to_dataset data (pm_coords self) (pm_dims self))"

definition pm_sample_stats_to_xarray :: "pymc3_converter \<Rightarrow> error + dataset option" where
  "pm_sample_stats_to_xarray self =
     requires (pm_trace self) (\<lambda>trace.
       case collect_vars (mt_stat_names trace) (mt_sampler_stats trace) [] of
         Inl e \<Rightarrow> Inl e
       | Inr data \<Rightarrow> dict_to_dataset data None None)"

definition pm_posterior_predictive_to_xarray :: "pymc3_converter \<Rightarrow> error + dataset option" where
  "pm_posterior_predictive_to_xarray self =
     requires (pm_posterior_predictive self) (\<lambda>pp.
       dict_to_dataset (expand_all pp []) (pm_coords self) (pm_dims self))"

definition pm_prior_to_xarray :: "pymc3_converter \<Rightarrow> error + dataset option" where
  "pm_prior_to_xarray self =
     requires (pm_prior self) (\<lambda>prior.
       dict_to_dataset (expand_all prior []) (pm_coords self) (pm_dims self))"

text \<open>
  \<open>PyMC3Converter.to_inference_data\<close>: the four values of the dictionary literal are
  evaluated in the order written; the first exception ends the call.
\<close>

definition pm_to_inference_data :: "pymc3_converter \<Rightarrow> error + inference_data" where
  "pm_to_inference_data self =
     (case pm_posterior_to_xarray self of Inl e \<Rightarrow> Inl e | Inr posterior \<Rightarrow>
      case pm_sample_stats_to_xarray self of Inl e \<Rightarrow> Inl e | Inr sample_stats \<Rightarrow>
      case pm_posterior_predictive_to_xarray self of Inl e \<Rightarrow> Inl e | Inr posterior_predictive \<Rightarrow>
      case pm_prior_to_xarray self of Inl e \<Rightarrow> Inl e | Inr prior \<Rightarrow>
        Inr (InferenceData [(''posterior'', posterior), (''sample_stats'', sample_stats),
                            (''posterior_predictive'', posterior_predictive),
                            (''prior'', prior)]))"

definition pymc3_to_inference_data ::
  "multitrace option \<Rightarrow> ndarray dict option \<Rightarrow> ndarray dict option \<Rightarrow> coords option \<Rightarrow>
   string list dict option \<Rightarrow> error + inference_data" where
  "pymc3_to_inference_data trace prior posterior_predictive coords dims =
     pm_to_inference_data
       \<lparr>pm_trace = trace, pm_prior = prior, pm_posterior_predictive = posterior_predictive,
        pm_coords = coords, pm_dims = dims\<rparr>"

record pystan_converter =
  ps_fit :: "stan_fit option"
  ps_coords :: "coords option"
  ps_dims :: "string list dict option"
  ps_var_names :: "string list"

text \<open>Lines 238 and 239: every extracted array gets its first two axes swapped.\<close>

fun swap_all :: "ndarray dict \<Rightarrow> ndarray dict \<Rightarrow> error + ndarray dict" where
  "swap_all [] acc = Inr acc"
| "swap_all ((var_name, vals) # rest) acc =
     (case np_swapaxes01 vals of
        Inl e \<Rightarrow> Inl e
      | Inr a \<Rightarrow> swap_all rest (AList.update var_name a acc))"

text \<open>
  \<open>PyStanConverter.posterior_to_xarray\<close>. \<open>infer_dtypes\<close> is computed first; its result only
  selects the element type of the extracted arrays.
\<close>

definition ps_posterior_to_xarray :: "pystan_converter \<Rightarrow> error + dataset option" where
  "ps_posterior_to_xarray self =
     requires (ps_fit self) (\<lambda>fit.
       let dtypes = infer_dtypes (sf_stancode fit) (ps_var_names self)
       in case swap_all (sf_extract fit) [] of
            Inl e \<Rightarrow> Inl e
          | Inr data \<Rightarrow> dict_to_dataset data (ps_coords self) (ps_dims self))"

text \<open>
  \<open>re.sub('__$', "", key)\<close>: without MULTILINE, \<open>$\<close> matches at the end of the text and
  before a newline that ends it.
\<close>

definition sub_trailing_dunder :: "string \<Rightarrow> string" where
  "sub_trailing_dunder key =
     (if suffix ''__'' key then take (length key - 2) key
      else if suffix (''__'' @ [CHR 0x0A]) key then take (length key - 3) key @ [CHR 0x0A]
      else key)"

definition rename_key :: "string dict" where
  "rename_key =
     [(''accept_stat__'', ''accept_stat''), (''divergent__'', ''diverging''),
      (''energy__'', ''energy''), (''lp__'', ''lp''), (''n_leapfrog__'', ''n_leapfrog''),
      (''stepsize__'', ''stepsize''), (''treedepth__'', ''treedepth'')]"

text \<open>\<open>[j[key].astype(...) for j in sampler_params]\<close>; \<open>astype\<close> keeps the shape.\<close>

fun per_chain :: "string \<Rightarrow> ndarray dict list \<Rightarrow> error + ndarray list" where
  "per_chain key [] = Inr []"
| "per_chain key (j # js) =
     (case map_of j key of
        None \<Rightarrow> Inl (KeyError key)
      | Some a \<Rightarrow> (case per_chain key js of Inl e \<Rightarrow> Inl e | Inr as \<Rightarrow> Inr (a # as)))"

fun stack_stats :: "string list \<Rightarrow> ndarray dict list \<Rightarrow> ndarray dict \<Rightarrow> error + ndarray dict" where
  "stack_stats [] sampler_params acc = Inr acc"
| "stack_stats (key # keys) sampler_params acc =
     (let name = (case map_of rename_key key of
                    Some n \<Rightarrow> n
                  | None \<Rightarrow> sub_trailing_dunder key)
      in case per_chain key sampler_params of
           Inl e \<Rightarrow> Inl e
         | Inr arrays \<Rightarrow>
             (case np_vstack arrays of
                Inl e \<Rightarrow> Inl e
              | Inr a \<Rightarrow> stack_stats keys sampler_params (AList.update name a acc)))"

definition ps_sample_stats_to_xarray :: "pystan_converter \<Rightarrow> error + dataset option" where
  "ps_sample_stats_to_xarray self =
     requires (ps_fit self) (\<lambda>fit.
       case sf_sampler_params fit of
         [] \<Rightarrow> Inl (IndexError ''list index out of range'')
       | first # _ \<Rightarrow>
           (case stack_stats (map fst first) (sf_sampler_params fit) [] of
              Inl e \<Rightarrow> Inl e
            | Inr data \<Rightarrow> dict_to_dataset data (ps_coords self) (ps_dims self)))"

definition ps_to_inference_data :: "pystan_converter \<Rightarrow> error + inference_data" where
  "ps_to_inference_data self =
     (case ps_posterior_to_xarray self of Inl e \<Rightarrow> Inl e | Inr posterior \<Rightarrow>
      case ps_sample_stats_to_xarray self of Inl e \<Rightarrow> Inl e | Inr sample_stats \<Rightarrow>
        Inr (InferenceData [(''posterior'', posterior), (''sample_stats'', sample_stats)]))"

text \<open>
  \<open>pystan_to_inference_data\<close>: the constructor reads \<open>fit.model_pars\<close>, which raises
  AttributeError when \<open>fit\<close> is \<open>None\<close>.
\<close>

definition pystan_to_inference_data ::
  "stan_fit option \<Rightarrow> coords option \<Rightarrow> string list dict option \<Rightarrow> error + inference_data" where
  "pystan_to_inference_data fit coords dims =
     (case fit of
        None \<Rightarrow> Inl (AttributeError ''model_pars'')
      | Some f \<Rightarrow>
          ps_to_inference_data
            \<lparr>ps_fit = fit, ps_coords = coords, ps_dims = dims, ps_var_names = sf_model_pars f\<rparr>)"

section \<open>\<open>convert_to_inference_data\<close> and \<open>convert_to_dataset\<close>\<close>

text \<open>
  The objects the function can be handed, by the outcome of its tests in order:
  \<open>isinstance(obj, InferenceData)\<close>, \<open>isinstance(obj, str)\<close>, a class named
  \<open>StanFit4Model\<close>, a class named \<open>MultiTrace\<close>, \<open>isinstance(obj, xr.Dataset)\<close>,
  \<open>isinstance(obj, dict)\<close> (a dict of arrays), \<open>isinstance(obj, np.ndarray)\<close>. \<open>ObjOther n\<close> is
  an object of any other class, \<open>n\<close> being the name of its class; it has none of the
  attributes of a fit or a trace.
\<close>

datatype pyobj =
    ObjInferenceData inference_data
  | ObjStr string
  | ObjStanFit stan_fit
  | ObjMultiTrace multitrace
  | ObjDataset dataset
  | ObjDict "ndarray dict"
  | ObjNdarray ndarray
  | ObjOther string

definition allowable_types :: "string list" where
  "allowable_types =
     [''xarray dataset'', ''dict'', ''netcdf file'', ''numpy array'', ''pystan fit'',
      ''pymc3 trace'']"

definition unsupported_message :: "string \<Rightarrow> string" where
  "unsupported_message class_name =
     ''Can only convert '' @ join '', '' allowable_types @ '' to InferenceData, not '' @ class_name"

text \<open>
  \<open>convert_to_inference_data\<close>. \<open>InferenceData.from_netcdf\<close>, which loads the named file from
  disk, is not among the sources and is the parameter \<open>from_netcdf\<close>: the state of the disk is
  what this function returns for a path. An object that only bears the class name of a fit or
  a trace is sent to the converter all the same, which fails at the first attribute it reads.
\<close>

definition convert_to_inference_data ::
  "(string \<Rightarrow> error + inference_data) \<Rightarrow> pyobj \<Rightarrow> string \<Rightarrow> coords option \<Rightarrow>
   string list dict option \<Rightarrow> error + inference_data" where
  "convert_to_inference_data from_netcdf obj group_name coords dims =
     (case obj of
        ObjInferenceData idata \<Rightarrow> Inr idata
      | ObjStr path \<Rightarrow> from_netcdf path
      | ObjStanFit fit \<Rightarrow> pystan_to_inference_data (Some fit) coords dims
      | ObjMultiTrace trace \<Rightarrow> pymc3_to_inference_data (Some trace) None None coords dims
      | ObjDataset dataset \<Rightarrow> Inr (InferenceData [(group_name, Some dataset)])
      | ObjDict d \<Rightarrow>
          (case dict_to_dataset d coords dims of
             Inl e \<Rightarrow> Inl e
           | Inr dataset \<Rightarrow> Inr (InferenceData [(group_name, Some dataset)]))
      | ObjNdarray a \<Rightarrow>
          (case dict_to_dataset [(''x'', a)] coords dims of
             Inl e \<Rightarrow> Inl e
           | Inr dataset \<Rightarrow> Inr (InferenceData [(group_name, Some dataset)]))
      | ObjOther class_name \<Rightarrow>
          if class_name = ''StanFit4Model'' then Inl (AttributeError ''model_pars'')
          else if class_name = ''MultiTrace'' then Inl (AttributeError ''varnames'')
          else Inl (ValueError (unsupported_message class_name)))"

definition convert_to_dataset ::
  "(string \<Rightarrow> error + inference_data) \<Rightarrow> pyobj \<Rightarrow> string \<Rightarrow> coords option \<Rightarrow>
   string list dict option \<Rightarrow> error + dataset" where
  "convert_to_dataset from_netcdf obj group_name coords dims =
     (case convert_to_inference_data from_netcdf obj group_name coords dims of
        Inl e \<Rightarrow> Inl e
      | Inr inference_data \<Rightarrow>
          (case getattr_group inference_data group_name of
             None \<Rightarrow> Inl (ValueError (''Can not extract '' @ group_name @
                        ''! See __file__ for other conversion utilities.''))
           | Some dataset \<Rightarrow> Inr dataset))"

section \<open>\<open>_plot_posterior_op\<close>\<close>

text \<open>
  The flattened array of samples that \<open>posteriorplot\<close> passes to the artist, by its
  \<open>dtype.kind\<close>: signed integers (\<open>i\<close>) with their values, floating point (\<open>f\<close>) by size only,
  as the floating point values are not modelled, and any other kind by its letter and size.
\<close>

datatype other_kind = KindBool | KindUnsigned | KindComplex | KindObject

datatype sample_array =
    IntSamples "int list"
  | FloatSamples nat
  | OtherSamples other_kind nat

fun dtype_kind :: "sample_array \<Rightarrow> char" where
  "dtype_kind (IntSamples _) = CHR ''i''"
| "dtype_kind (FloatSamples _) = CHR ''f''"
| "dtype_kind (OtherSamples KindBool _) = CHR ''b''"
| "dtype_kind (OtherSamples KindUnsigned _) = CHR ''u''"
| "dtype_kind (OtherSamples KindComplex _) = CHR ''c''"
| "dtype_kind (OtherSamples KindObject _) = CHR ''O''"

text \<open>
  \<open>values.min()\<close> and \<open>values.max()\<close> of an integer array raise ValueError on an empty array.
\<close>

definition np_min :: "int list \<Rightarrow> error + int" where
  "np_min xs =
     (case xs of
        [] \<Rightarrow> Inl (ValueError ''zero-size array to reduction operation minimum which has no identity'')
      | x # rest \<Rightarrow> Inr (fold min rest x))"

definition np_max :: "int list \<Rightarrow> error + int" where
  "np_max xs =
     (case xs of
        [] \<Rightarrow> Inl (ValueError ''zero-size array to reduction operation maximum which has no identity'')
      | x # rest \<Rightarrow> Inr (fold max rest x))"

text \<open>
  The \<open>bins\<close> handed to \<open>ax.hist\<close>: \<open>'auto'\<close>, \<open>range(lo, hi)\<close>, or what the caller passed.
  What is drawn on the axes is the list of the drawing calls made, in order; \<open>SetXlim lo hi\<close>
  stands for \<open>ax.set_xlim(lo - 0.5, hi + 0.5)\<close>, and the text of the point estimate is
  recorded by the name of the estimate.
\<close>

datatype bins = BinsAuto | BinsRange int int | BinsUser string

datatype draw =
    KdePlot
  | Hist bins
  | SetXlim int int
  | FormatAxes
  | HpdInterval
  | PointEstimateText string
  | RefValLine
  | RopeLine

type_synonym axes = "draw list"

text \<open>
  A step of the artist returns the axes as it leaves them and the exception it raised, if
  any; \<open>and_then\<close> runs the next step unless an exception is under way.
\<close>

definition and_then :: "axes \<times> error option \<Rightarrow> (axes \<Rightarrow> axes \<times> error option) \<Rightarrow> axes \<times> error option" where
  "and_then r f = (case r of (ax, Some e) \<Rightarrow> (ax, Some e) | (ax, None) \<Rightarrow> f ax)"

text \<open>
  Lines 211 to 229: a kernel density curve, or a histogram with its bins. In \<open>xmax + 2\<close> the
  left operand is a numpy integer scalar; the library carries the sum out in the width of the
  array's dtype or in 64 bits, depending on its version, and wraps around on overflow. The
  sum is therefore the parameter \<open>np_add\<close>.
\<close>

definition draw_distribution ::
  "(int \<Rightarrow> int \<Rightarrow> int) \<Rightarrow> sample_array \<Rightarrow> string \<Rightarrow> bins option \<Rightarrow> axes \<Rightarrow>
   axes \<times> error option" where
  "draw_distribution np_add vals kind bins ax =
     (if kind = ''kde'' \<and> dtype_kind vals = CHR ''f'' then (ax @ [KdePlot], None)
      else
        (case bins of
           Some b \<Rightarrow> (ax @ [Hist b], None)
         | None \<Rightarrow>
             (case vals of
                IntSamples xs \<Rightarrow>
                  (case np_min xs of
                     Inl e \<Rightarrow> (ax, Some e)
                   | Inr xmin \<Rightarrow>
                       (case np_max xs of
                          Inl e \<Rightarrow> (ax, Some e)
                        | Inr xmax \<Rightarrow>
                            (ax @ [SetXlim xmin xmax, Hist (BinsRange xmin (np_add xmax 2))],
                             None)))
              | _ \<Rightarrow> (ax @ [Hist BinsAuto], None))))"

definition format_axes :: "axes \<Rightarrow> axes \<times> error option" where
  "format_axes ax = (ax @ [FormatAxes], None)"

text \<open>
  \<open>display_hpd\<close>. The function \<open>hpd\<close> of the statistics module is not among the sources and is
  a parameter: the exception it raises on these samples, or \<open>None\<close> when it returns an
  interval.
\<close>

definition display_hpd :: "(sample_array \<Rightarrow> error option) \<Rightarrow> sample_array \<Rightarrow> axes \<Rightarrow> axes \<times> error option" where
  "display_hpd hpd vals ax =
     (case hpd vals of Some e \<Rightarrow> (ax, Some e) | None \<Rightarrow> (ax @ [HpdInterval], None))"

text \<open>
  \<open>display_point_estimate\<close>, lines 164 to 184. \<open>point_estimate\<close> may be \<open>None\<close> or empty, which
  draws nothing. For \<open>'mode'\<close> the first thing evaluated is \<open>values.iloc[0]\<close>; \<open>values\<close> is a numpy
  array, which has no attribute \<open>iloc\<close>.
\<close>

definition display_point_estimate :: "string option \<Rightarrow> sample_array \<Rightarrow> axes \<Rightarrow> axes \<times> error option" where
  "display_point_estimate point_estimate vals ax =
     (case point_estimate of
        None \<Rightarrow> (ax, None)
      | Some pe \<Rightarrow>
          if pe = [] then (ax, None)
          else if pe \<notin> set [''mode'', ''mean'', ''median'']
          then (ax, Some (ValueError ''Point Estimate should be in (mode, mean, median)''))
          else if pe = ''mean'' then (ax @ [PointEstimateText pe], None)
          else if pe = ''mode'' then (ax, Some (AttributeError ''iloc''))
          else (ax @ [PointEstimateText pe], None))"

text \<open>
  \<open>display_ref_val\<close> and \<open>display_rope\<close>, by the outcome of their look-up: a scalar, a
  dictionary with or without an entry matching the variable and selection, or another
  object. A dictionary without a match leaves \<open>val\<close> unassigned in \<open>display_ref_val\<close>, and
  makes \<open>display_rope\<close> return. \<open>RopePair\<close> is an object of length two, \<open>RopeInvalid\<close> one of
  another length, and \<open>RopeUnsized\<close> an object without a length, on which \<open>len(rope)\<close>
  raises TypeError.
\<close>

datatype ref_val_arg = RefScalar | RefDictMatch | RefDictNoMatch | RefInvalid

datatype rope_arg = RopePair | RopeDictMatch | RopeDictNoMatch | RopeInvalid | RopeUnsized

definition display_ref_val :: "ref_val_arg option \<Rightarrow> axes \<Rightarrow> axes \<times> error option" where
  "display_ref_val ref_val ax =
     (case ref_val of
        None \<Rightarrow> (ax, None)
      | Some RefDictMatch \<Rightarrow> (ax @ [RefValLine], None)
      | Some RefDictNoMatch \<Rightarrow>
          (ax, Some (UnboundLocalError ''local variable val referenced before assignment''))
      | Some RefScalar \<Rightarrow> (ax @ [RefValLine], None)
      | Some RefInvalid \<Rightarrow>
          (ax, Some (ValueError ''Argument ref_val must be None, a constant, or a dictionary'')))"

definition display_rope :: "rope_arg option \<Rightarrow> axes \<Rightarrow> axes \<times> error option" where
  "display_rope rope ax =
     (case rope of
        None \<Rightarrow> (ax, None)
      | Some RopeDictMatch \<Rightarrow> (ax @ [RopeLine], None)
      | Some RopeDictNoMatch \<Rightarrow> (ax, None)
      | Some RopePair \<Rightarrow> (ax @ [RopeLine], None)
      | Some RopeInvalid \<Rightarrow>
          (ax, Some (ValueError ''Argument rope must be None, a dictionary, or an iterable of length 2''))
      | Some RopeUnsized \<Rightarrow> (ax, Some (TypeError ''object has no len()'')))"

text \<open>The artist, lines 211 to 239.\<close>

definition plot_posterior_op ::
  "(int \<Rightarrow> int \<Rightarrow> int) \<Rightarrow> (sample_array \<Rightarrow> error option) \<Rightarrow> sample_array \<Rightarrow> axes \<Rightarrow>
   bins option \<Rightarrow> string \<Rightarrow> string option \<Rightarrow> ref_val_arg option \<Rightarrow> rope_arg option \<Rightarrow>
   axes \<times> error option" where
  "plot_posterior_op np_add hpd vals ax bins kind point_estimate ref_val rope =
     and_then (and_then (and_then (and_then (and_then
       (draw_distribution np_add vals kind bins ax)
       format_axes)
       (display_hpd hpd vals))
       (display_point_estimate point_estimate vals))
       (display_ref_val ref_val))
       (display_rope rope)"

section \<open>Predicates used to state the properties\<close>



text \<open>
  The coordinates after lines 158 to 161: \<open>chain\<close> and \<open>draw\<close> receive \<open>np.arange\<close> labels
  where the dictionary has none. (\<open>label_and_wrap\<close> computes this inline.)
\<close>

definition with_defaults :: "nat \<Rightarrow> nat \<Rightarrow> coords \<Rightarrow> coords" where
  "with_defaults n_chains n_samples cs =
     (let cs1 = (if map_of cs ''chain'' = None
                 then AList.update ''chain'' (arange n_chains) cs else cs)
      in if map_of cs1 ''draw'' = None
         then AList.update ''draw'' (arange n_samples) cs1 else cs1)"

text \<open>
  Two states of the disk, used in the examples: one on which no file can be loaded, and one
  on which every path holds a container with an empty posterior group.
\<close>

definition missing_file :: "string \<Rightarrow> error + inference_data" where
  "missing_file path = Inl (OSError path)"


text \<open>A small trace and a small fit, used in the examples.\<close>

definition example_trace :: multitrace where
  "example_trace =
     \<lparr>mt_default_varnames = [''mu''], mt_values = [(''mu'', Ndarray [2, 3])],
      mt_stat_names = [''diverging''], mt_sampler_stats = [(''diverging'', Ndarray [2, 3])]\<rparr>"

definition example_fit :: stan_fit where
  "example_fit =
     \<lparr>sf_model_pars = [''mu''], sf_stancode = ''parameters { real mu; }'',
      sf_extract = [(''mu'', Ndarray [3, 2])],
      sf_sampler_params = [[(''lp__'', Ndarray [3])], [(''lp__'', Ndarray [3])]]\<rparr>"

text \<open>An \<open>hpd\<close> that returns an interval for every array of samples.\<close>

definition hpd_returns :: "sample_array \<Rightarrow> error option" where
  "hpd_returns vals = None"

text \<open>
  What the steps after the first one draw: neither a density curve nor a histogram nor axis
  limits.
\<close>

definition later_draw :: "draw \<Rightarrow> bool" where
  "later_draw d =
     (case d of KdePlot \<Rightarrow> False | Hist b \<Rightarrow> False | SetXlim lo hi \<Rightarrow> False | _ \<Rightarrow> True)"

text \<open>
  Addition of signed integers of \<open>w\<close> bits with wrap-around, the sum numpy computes for an
  integer scalar of that width.
\<close>

definition wrap_add :: "nat \<Rightarrow> int \<Rightarrow> int \<Rightarrow> int" where
  "wrap_add w a b = (a + b + 2 ^ (w - 1)) mod 2 ^ w - 2 ^ (w - 1)"

text \<open>
  A Stan program with a comment of each kind and two string literals after
  \<open>generated quantities\<close>, each holding the text of an integer declaration.
\<close>

definition example_program :: string where
  "example_program =
     ''parameters { real mu; }'' @ [CHR 0x0A] @
     ''generated quantities {'' @ [CHR 0x0A] @
     ''  int<lower=0> k; # int a;'' @ [CHR 0x0A] @
     ''  /* int b; */ int n; // int c;'' @ [CHR 0x0A] @
     ''  reject('' @ [CHR 0x22] @ ''int d;'' @ [CHR 0x22] @ ''); reject('' @ [CHR 0x27] @ ''int e;'' @
       [CHR 0x27] @ '');'' @ [CHR 0x0A] @
     ''}''"

section \<open>Properties of the labeling of sample arrays\<close>

lemma digit_inj: "m < 10 \<Longrightarrow> n < 10 \<Longrightarrow> ''0123456789'' ! m = ''0123456789'' ! n \<Longrightarrow> m = n"
proof -
  have d: "distinct ''0123456789''" by simp
  have l: "length ''0123456789'' = 10" by simp
  show "m < 10 \<Longrightarrow> n < 10 \<Longrightarrow> ''0123456789'' ! m = ''0123456789'' ! n \<Longrightarrow> m = n"
    using d l nth_eq_iff_index_eq by metis
qed

lemma string_of_nat_nonempty: "string_of_nat n \<noteq> []"
  by (subst string_of_nat.simps) simp

lemma string_of_nat_small: "n < 10 \<Longrightarrow> string_of_nat n = [''0123456789'' ! n]"
  by (subst string_of_nat.simps) simp

lemma string_of_nat_large:
  "\<not> n < 10 \<Longrightarrow> string_of_nat n = string_of_nat (n div 10) @ [''0123456789'' ! (n mod 10)]"
  by (subst string_of_nat.simps) simp

lemma string_of_nat_inj: "string_of_nat m = string_of_nat n \<Longrightarrow> m = n"
proof (induction m arbitrary: n rule: string_of_nat.induct)
  case (1 m)
  show ?case
  proof (cases "m < 10")
    case m: True
    show ?thesis
    proof (cases "n < 10")
      case True
      with m "1.prems" show ?thesis
        by (simp add: string_of_nat_small digit_inj)
    next
      case False
      with m "1.prems" show ?thesis
        using string_of_nat_nonempty [of "n div 10"]
        by (simp add: string_of_nat_small string_of_nat_large)
    qed
  next
    case m: False
    show ?thesis
    proof (cases "n < 10")
      case True
      with m "1.prems" show ?thesis
        using string_of_nat_nonempty [of "m div 10"]
        by (simp add: string_of_nat_small string_of_nat_large)
    next
      case False
      with m "1.prems" have e: "string_of_nat (m div 10) = string_of_nat (n div 10)"
        and d: "''0123456789'' ! (m mod 10) = ''0123456789'' ! (n mod 10)"
        by (simp_all add: string_of_nat_large)
      from "1.IH" [OF m e] have "m div 10 = n div 10" .
      moreover from d have "m mod 10 = n mod 10"
        by (intro digit_inj) simp_all
      ultimately show ?thesis
        by (metis div_mult_mod_eq)
    qed
  qed
qed

lemma dim_name_inj: "dim_name v i = dim_name v j \<Longrightarrow> i = j"
  by (simp add: dim_name_def string_of_nat_inj)

lemma dim_name_length: "5 < length (dim_name v i)"
  using string_of_nat_nonempty [of i] by (cases "string_of_nat i") (simp_all add: dim_name_def)

lemma dim_name_not_default: "dim_name v i \<noteq> ''chain''" "dim_name v i \<noteq> ''draw''"
  using dim_name_length [of v i] by auto

lemma update_fresh: "k \<notin> fst ` set al \<Longrightarrow> AList.update k v al = al @ [(k, v)]"
  by (induction al) auto

lemma add_trailing_eq:
  "\<forall>i\<ge>k. dim_name v i \<notin> fst ` set cs \<Longrightarrow>
   add_trailing v (enumerate k shp) dims cs =
     (dims @ map (dim_name v) [k..<k + length shp],
      cs @ map (\<lambda>(i, n). (dim_name v i, arange n)) (enumerate k shp))"
proof (induction shp arbitrary: k dims cs)
  case Nil
  then show ?case by simp
next
  case (Cons n shp)
  let ?cs = "cs @ [(dim_name v k, arange n)]"
  have fresh: "\<forall>i\<ge>Suc k. dim_name v i \<notin> fst ` set ?cs"
    using Cons.prems by (auto dest: dim_name_inj)
  have upd: "AList.update (dim_name v k) (arange n) cs = ?cs"
    using Cons.prems by (intro update_fresh) simp
  have rng: "[k..<k + length (n # shp)] = k # [Suc k..<Suc k + length shp]"
    by (simp add: upt_rec)
  show ?case
    unfolding rng using Cons.IH [OF fresh, of "dims @ [dim_name v k]"] upd
    by simp
qed


lemma enumerate_map_nth:
  "map (\<lambda>(i, n). (f i, g n)) (enumerate 0 s) = map (\<lambda>i. (f i, g (s ! i))) [0..<length s]"
  by (rule nth_equalityI) (simp_all add: nth_enumerate_eq)

lemma add_trailing_fresh:
  "add_trailing v (enumerate 0 shp) dims [] =
     (dims @ map (dim_name v) [0..<length shp],
      map (\<lambda>i. (dim_name v i, arange (shp ! i))) [0..<length shp])"
  using add_trailing_eq [of 0 v "[]" shp dims]
  by (simp add: enumerate_map_nth)

lemma map_of_dim_names:
  "i \<in> set xs \<Longrightarrow> map_of (map (\<lambda>i. (dim_name v i, g i)) xs) (dim_name v i) = Some (g i)"
  by (induction xs) (auto dest: dim_name_inj)

lemma map_of_dim_names_default:
  "map_of (map (\<lambda>i. (dim_name v i, g i)) xs) ''chain'' = None"
  "map_of (map (\<lambda>i. (dim_name v i, g i)) xs) ''draw'' = None"
  using dim_name_not_default [of v] dim_name_not_default [of v, symmetric]
  by (induction xs) auto

lemma build_index_all:
  "distinct dims \<Longrightarrow> \<forall>k\<in>set dims. map_of cs k \<noteq> None \<Longrightarrow> set dims \<inter> fst ` set acc = {} \<Longrightarrow>
   build_index dims cs acc = Inr (acc @ map (\<lambda>k. (k, the (map_of cs k))) dims)"
proof (induction dims arbitrary: acc)
  case Nil
  then show ?case by simp
next
  case (Cons k dims)
  from Cons.prems obtain x where x: "map_of cs k = Some x" by auto
  have upd: "AList.update k x acc = acc @ [(k, x)]"
    using Cons.prems by (intro update_fresh) auto
  have "build_index dims cs (acc @ [(k, x)]) =
          Inr ((acc @ [(k, x)]) @ map (\<lambda>k. (k, the (map_of cs k))) dims)"
    using Cons.prems by (intro Cons.IH) auto
  with x upd show ?case by simp
qed

lemma length_arange [simp]: "length (arange n) = n"
  by (simp add: arange_def)

lemma numpy_to_data_array_1d:
  "numpy_to_data_array (Ndarray [n]) v coords None =
     Inr \<lparr>da_values = Ndarray [1, n], da_dims = [''chain'', ''draw''],
          da_coords = [(''chain'', arange 1), (''draw'', arange n)]\<rparr>"
  by (simp add: numpy_to_data_array_def infer_dims_def squeeze_last_def label_and_wrap_def
      default_dims_def xr_DataArray_def)

lemma numpy_to_data_array_2d:
  "numpy_to_data_array (Ndarray [m, n]) v coords None =
     Inr \<lparr>da_values = Ndarray [m, n], da_dims = [''chain'', ''draw''],
          da_coords = [(''chain'', arange m), (''draw'', arange n)]\<rparr>"
  by (simp add: numpy_to_data_array_def infer_dims_def squeeze_last_def label_and_wrap_def
      default_dims_def xr_DataArray_def)


lemma infer_dims_nd:
  "s \<noteq> [] \<Longrightarrow> infer_dims (Ndarray (c # d # s)) v =
     Inr (Ndarray (c # d # s), ''chain'' # ''draw'' # map (dim_name v) [0..<length s],
          map (\<lambda>i. (dim_name v i, arange (s ! i))) [0..<length s])"
  using add_trailing_fresh [of v s default_dims]
  by (cases s) (simp_all add: infer_dims_def default_dims_def del: upt_Suc add_trailing.simps)

lemma map_of_snoc:
  "map_of (xs @ [(k, v)]) k' =
     (case map_of xs k' of Some y \<Rightarrow> Some y | None \<Rightarrow> if k' = k then Some v else None)"
  by (induction xs) auto

lemma label_and_wrap_trailing:
  "label_and_wrap (Ndarray (c # d # s)) (''chain'' # ''draw'' # map (dim_name v) [0..<length s])
       (map (\<lambda>i. (dim_name v i, arange (s ! i))) [0..<length s]) =
     Inr \<lparr>da_values = Ndarray (c # d # s),
          da_dims = ''chain'' # ''draw'' # map (dim_name v) [0..<length s],
          da_coords = (''chain'', arange c) # (''draw'', arange d) #
                      map (\<lambda>i. (dim_name v i, arange (s ! i))) [0..<length s]\<rparr>"
proof -
  define n where "n = length s"
  define T where "T = map (\<lambda>i. (dim_name v i, arange (s ! i))) [0..<n]"
  define names where "names = map (dim_name v) [0..<n]"
  define cs1 where "cs1 = T @ [(''chain'', arange c)]"
  define cs2 where "cs2 = cs1 @ [(''draw'', arange d)]"
  define idx where "idx = (''chain'', arange c) # (''draw'', arange d) # T"
  have nochain: "map_of T ''chain'' = None" and nodraw: "map_of T ''draw'' = None"
    unfolding T_def by (rule map_of_dim_names_default)+
  have inT: "map_of T (dim_name v i) = Some (arange (s ! i))" if "i < n" for i
    unfolding T_def using that map_of_dim_names [of i "[0..<n]" v "\<lambda>i. arange (s ! i)"] by simp
  have fc: "''chain'' \<notin> fst ` set T"
    using nochain by (simp add: map_of_eq_None_iff)
  have nodraw1: "map_of cs1 ''draw'' = None"
    unfolding cs1_def using nodraw by (simp only: map_of_snoc) simp
  then have fd: "''draw'' \<notin> fst ` set cs1"
    by (simp add: map_of_eq_None_iff)
  have upd1: "AList.update ''chain'' (arange c) T = cs1"
    unfolding cs1_def using fc by (rule update_fresh)
  have upd2: "AList.update ''draw'' (arange d) cs1 = cs2"
    unfolding cs2_def using fd by (rule update_fresh)
  have look: "map_of cs2 (dim_name v i) = Some (arange (s ! i))" if "i < n" for i
    unfolding cs2_def cs1_def using inT [OF that] by (simp only: map_of_snoc) simp
  have lc: "map_of cs2 ''chain'' = Some (arange c)"
    unfolding cs2_def cs1_def using nochain by (simp only: map_of_snoc) simp
  have ld: "map_of cs2 ''draw'' = Some (arange d)"
    unfolding cs2_def using nodraw1 by (simp only: map_of_snoc) simp
  have names_set: "set names = dim_name v ` {0..<n}"
    by (simp add: names_def)
  have dist_names: "distinct names"
    unfolding names_def by (auto simp: distinct_map inj_on_def dest: dim_name_inj)
  have "k \<notin> set names" if "\<And>i. dim_name v i \<noteq> k" for k
  proof
    assume "k \<in> set names"
    then obtain i where "k = dim_name v i"
      unfolding names_set by (elim imageE)
    with that [of i] show False by simp
  qed
  from this [of "''chain''"] this [of "''draw''"]
  have "''chain'' \<notin> set names" and "''draw'' \<notin> set names"
    using dim_name_not_default [of v] by blast+
  then have dist: "distinct (''chain'' # ''draw'' # names)"
    using dist_names by simp
  have allk: "\<forall>k\<in>set (''chain'' # ''draw'' # names). map_of cs2 k \<noteq> None"
    using look lc ld names_set by auto
  have names_idx: "map (\<lambda>k. (k, the (map_of cs2 k))) names = T"
    unfolding names_def T_def using look by simp
  have "build_index (''chain'' # ''draw'' # names) cs2 [] =
          Inr ([] @ map (\<lambda>k. (k, the (map_of cs2 k))) (''chain'' # ''draw'' # names))"
    using dist allk by (intro build_index_all) simp_all
  then have bi: "build_index (''chain'' # ''draw'' # names) cs2 [] = Inr idx"
    using names_idx lc ld by (simp add: idx_def del: build_index.simps)
  have idxl: "map_of idx (dim_name v i) = Some (arange (s ! i))" if "i < n" for i
    unfolding idx_def using inT [OF that] dim_name_not_default [of v i] by simp
  have "list_all2 (\<lambda>d n. case map_of idx d of None \<Rightarrow> True | Some ls \<Rightarrow> length ls = n) names s"
    unfolding names_def using idxl by (simp add: list_all2_conv_all_nth n_def)
  moreover have "map_of idx ''chain'' = Some (arange c)" "map_of idx ''draw'' = Some (arange d)"
    by (simp_all add: idx_def)
  ultimately have chk:
    "list_all2 (\<lambda>d n. case map_of idx d of None \<Rightarrow> True | Some ls \<Rightarrow> length ls = n)
       (''chain'' # ''draw'' # names) (c # d # s)"
    by simp
  have len: "length (''chain'' # ''draw'' # names) = length (c # d # s)"
    by (simp add: names_def n_def)
  have "label_and_wrap (Ndarray (c # d # s)) (''chain'' # ''draw'' # names) T =
          Inr \<lparr>da_values = Ndarray (c # d # s), da_dims = ''chain'' # ''draw'' # names,
               da_coords = idx\<rparr>"
    unfolding label_and_wrap_def xr_DataArray_def
    using nochain nodraw1 upd1 upd2 bi chk len
    by (simp del: build_index.simps list_all2_Cons)
  then show ?thesis
    by (simp add: names_def T_def idx_def n_def)
qed

lemma numpy_to_data_array_nd:
  "s \<noteq> [] \<Longrightarrow> numpy_to_data_array (Ndarray (c # d # s)) v coords None =
     Inr \<lparr>da_values = Ndarray (c # d # s),
          da_dims = ''chain'' # ''draw'' # map (dim_name v) [0..<length s],
          da_coords = (''chain'', arange c) # (''draw'', arange d) #
                      map (\<lambda>i. (dim_name v i, arange (s ! i))) [0..<length s]\<rparr>"
  using label_and_wrap_trailing [of c d s v]
  by (simp add: numpy_to_data_array_def infer_dims_nd)


lemma build_index_missing:
  "\<exists>k\<in>set dims. map_of cs k = None \<Longrightarrow>
   \<exists>k\<in>set dims. map_of cs k = None \<and> build_index dims cs acc = Inl (KeyError k)"
proof (induction dims arbitrary: acc)
  case Nil
  then show ?case by simp
next
  case (Cons d dims)
  show ?case
  proof (cases "map_of cs d")
    case None
    then show ?thesis by simp
  next
    case (Some x)
    with Cons.prems have "\<exists>k\<in>set dims. map_of cs k = None" by auto
    from Cons.IH [OF this, of "AList.update d x acc"] Some show ?thesis by auto
  qed
qed

lemma build_index_Inr_all:
  "build_index dims cs acc = Inr idx \<Longrightarrow> \<forall>k\<in>set dims. map_of cs k \<noteq> None"
  using build_index_missing [of dims cs acc]
  by (cases "\<exists>k\<in>set dims. map_of cs k = None") auto

lemma xr_DataArray_Inr:
  "xr_DataArray ary cs dims = Inr da \<Longrightarrow>
   da_values da = ary \<and> da_dims da = dims \<and> da_coords da = cs"
  by (auto simp: xr_DataArray_def split: if_splits)

lemma with_defaults_lookup:
  "map_of (with_defaults nc nd cs) k =
     (if k = ''chain'' \<and> map_of cs ''chain'' = None then Some (arange nc)
      else if k = ''draw'' \<and> map_of cs ''draw'' = None then Some (arange nd)
      else map_of cs k)"
  by (auto simp: with_defaults_def Let_def update_conv')

lemma label_and_wrap_alt:
  "label_and_wrap ary dims cs =
     (case shape ary of
        nc # nd # _ \<Rightarrow>
          (case build_index dims (with_defaults nc nd cs) [] of
             Inl e \<Rightarrow> Inl e
           | Inr idx \<Rightarrow> xr_DataArray ary idx dims)
      | _ \<Rightarrow> Inl (ValueError ''not enough values to unpack (expected at least 2)''))"
  by (simp add: label_and_wrap_def with_defaults_def Let_def split: list.splits)

lemma label_and_wrap_Inr:
  assumes "label_and_wrap ary dims cs = Inr da"
  shows "\<exists>nc nd rest idx. shape ary = nc # nd # rest \<and>
           build_index dims (with_defaults nc nd cs) [] = Inr idx \<and>
           da_values da = ary \<and> da_dims da = dims \<and> da_coords da = idx"
  using assms unfolding label_and_wrap_alt
  by (auto split: list.splits sum.splits dest!: xr_DataArray_Inr)




lemma given_dims_Inr:
  "given_dims coords ds = Inr (dims', cs) \<Longrightarrow>
   coords = Some cs \<and> take 2 dims' = default_dims \<and> (dims' = ds \<or> dims' = default_dims @ ds)"
  by (auto simp: given_dims_def default_dims_def split: option.splits if_splits)




lemma set_update_subset: "set (AList.update k v al) \<subseteq> insert (k, v) (set al)"
  by (induction al) auto



lemma with_defaults_missing:
  "d \<noteq> ''chain'' \<Longrightarrow> d \<noteq> ''draw'' \<Longrightarrow> map_of (with_defaults nc nd cs) d = map_of cs d"
  by (simp add: with_defaults_lookup)

lemma with_defaults_has:
  "map_of (with_defaults nc nd cs) ''chain'' \<noteq> None"
  "map_of (with_defaults nc nd cs) ''draw'' \<noteq> None"
  by (auto simp: with_defaults_lookup)

lemma given_dims_set:
  "given_dims (Some cs) ds = Inr (dims', cs') \<Longrightarrow>
   cs' = cs \<and> set ds \<subseteq> set dims' \<and> set dims' \<subseteq> set ds \<union> {''chain'', ''draw''}"
  by (auto simp: given_dims_def default_dims_def split: if_splits)

lemma numpy_to_data_array_needs_coords:
  assumes "numpy_to_data_array ary v coords (Some ds) = Inr da"
  shows "\<exists>cs. coords = Some cs \<and>
           (\<forall>d\<in>set ds. d \<noteq> ''chain'' \<and> d \<noteq> ''draw'' \<longrightarrow> map_of cs d \<noteq> None)"
proof -
  from assms obtain dims' cs where
    giv: "given_dims coords ds = Inr (dims', cs)" and
    law: "label_and_wrap ary dims' cs = Inr da"
    by (auto simp: numpy_to_data_array_def split: sum.splits)
  from given_dims_Inr [OF giv] have co: "coords = Some cs" by simp
  with giv have sub: "set ds \<subseteq> set dims'"
    using given_dims_set by blast
  from label_and_wrap_Inr [OF law] obtain nc nd rest idx where
    bi: "build_index dims' (with_defaults nc nd cs) [] = Inr idx"
    by blast
  have "map_of cs d \<noteq> None" if "d \<in> set ds" "d \<noteq> ''chain''" "d \<noteq> ''draw''" for d
  proof -
    from that sub have "d \<in> set dims'" by blast
    with build_index_Inr_all [OF bi] have "map_of (with_defaults nc nd cs) d \<noteq> None" by blast
    with that show ?thesis by (simp add: with_defaults_missing)
  qed
  with co show ?thesis by blast
qed

lemma numpy_to_data_array_no_coords:
  "numpy_to_data_array ary v None (Some ds) = Inl (TypeError ''NoneType object is not iterable'')"
  by (simp add: numpy_to_data_array_def given_dims_def)

lemma numpy_to_data_array_short:
  "length (shape ary) < 2 \<Longrightarrow>
   numpy_to_data_array ary v (Some cs) (Some ds) =
     Inl (ValueError ''not enough values to unpack (expected at least 2)'')"
  by (cases "shape ary"; cases "tl (shape ary)")
     (auto simp: numpy_to_data_array_def given_dims_def label_and_wrap_alt)

lemma numpy_to_data_array_missing_key:
  assumes len: "2 \<le> length (shape ary)"
    and miss: "\<exists>d\<in>set ds. d \<noteq> ''chain'' \<and> d \<noteq> ''draw'' \<and> map_of cs d = None"
  shows "\<exists>k\<in>set ds. k \<noteq> ''chain'' \<and> k \<noteq> ''draw'' \<and> map_of cs k = None \<and>
           numpy_to_data_array ary v (Some cs) (Some ds) = Inl (KeyError k)"
proof -
  obtain dims' where giv: "given_dims (Some cs) ds = Inr (dims', cs)"
    by (simp add: given_dims_def)
  from given_dims_set [OF giv] have sub: "set ds \<subseteq> set dims'"
    and sup: "set dims' \<subseteq> set ds \<union> {''chain'', ''draw''}" by simp_all
  from len obtain nc nd rest where sh: "shape ary = nc # nd # rest"
    by (cases "shape ary"; cases "tl (shape ary)") auto
  let ?cs = "with_defaults nc nd cs"
  from miss obtain d where d: "d \<in> set ds" "d \<noteq> ''chain''" "d \<noteq> ''draw''" "map_of cs d = None"
    by blast
  from d(2,3,4) have "map_of ?cs d = None" by (simp add: with_defaults_missing)
  moreover from d(1) sub have "d \<in> set dims'" by blast
  ultimately have "\<exists>k\<in>set dims'. map_of ?cs k = None" by blast
  from build_index_missing [OF this, of "[]"] obtain k where
    k: "k \<in> set dims'" "map_of ?cs k = None" "build_index dims' ?cs [] = Inl (KeyError k)"
    by blast
  from k(2) with_defaults_has [of nc nd cs] have nk: "k \<noteq> ''chain''" "k \<noteq> ''draw''"
    by auto
  with k(1) sup have "k \<in> set ds" by auto
  moreover from k(2) nk have "map_of cs k = None" by (simp add: with_defaults_missing)
  moreover have "numpy_to_data_array ary v (Some cs) (Some ds) = Inl (KeyError k)"
    using giv sh k(3) by (simp add: numpy_to_data_array_def label_and_wrap_alt)
  ultimately show ?thesis using nk by blast
qed

section \<open>Properties of the text processing\<close>

lemma py_split_aux_none:
  "\<not> sublist sep s \<Longrightarrow> py_split_aux sep cur s = [cur @ s]"
proof (induction s arbitrary: cur)
  case Nil
  then show ?case by simp
next
  case (Cons c cs)
  have np: "\<not> prefix sep (c # cs)"
    using Cons.prems prefix_imp_sublist by blast
  have "\<not> sublist sep cs"
    using Cons.prems by (auto simp: sublist_Cons_right)
  from Cons.IH [OF this, of "cur @ [c]"] np show ?case by simp
qed

lemma py_split_aux_nonempty: "py_split_aux sep cur s \<noteq> []"
  by (induction sep cur s rule: py_split_aux.induct) auto

lemma no_overlap:
  assumes sep: "sep \<noteq> []" and g: "hd sep \<notin> set (tl sep)"
    and pre: "prefix sep (pre @ sep @ suf)"
    and ne: "pre \<noteq> []"
  shows "length sep \<le> length pre"
proof (rule ccontr)
  assume "\<not> length sep \<le> length pre"
  then have lt: "length pre < length sep" by simp
  from pre obtain zs where eq: "pre @ sep @ suf = sep @ zs"
    by (auto simp: prefix_def)
  have "(pre @ sep @ suf) ! length pre = (sep @ suf) ! 0"
    by (simp add: nth_append)
  also have "\<dots> = hd sep"
    using sep by (simp add: nth_append hd_conv_nth)
  finally have "(sep @ zs) ! length pre = hd sep"
    using eq by simp
  then have "sep ! length pre = hd sep"
    using lt by (simp add: nth_append)
  moreover from ne lt obtain k where k: "length pre = Suc k" "k < length (tl sep)"
    by (cases pre) auto
  moreover from k(2) have "tl sep ! k = sep ! Suc k"
    by (rule nth_tl)
  ultimately have "tl sep ! k = hd sep" by simp
  with k(2) have "hd sep \<in> set (tl sep)"
    by (metis nth_mem)
  with g show False by simp
qed

lemma py_split_aux_last:
  assumes sep: "sep \<noteq> []" and g: "hd sep \<notin> set (tl sep)"
    and ns: "\<not> sublist sep suf"
  shows "last (py_split_aux sep cur (pre @ sep @ suf)) = suf"
proof (induction "length pre" arbitrary: pre cur rule: less_induct)
  case less
  show ?case
  proof (cases pre)
    case Nil
    from sep obtain c cs where cs: "sep @ suf = c # cs"
      by (cases sep) auto
    have pfx: "prefix sep (c # cs)"
      unfolding cs [symmetric] by simp
    have dr: "drop (length sep) (c # cs) = suf"
      unfolding cs [symmetric] by simp
    have "py_split_aux sep cur (c # cs) = cur # py_split_aux sep [] suf"
      using sep pfx dr by (simp del: drop_Suc_Cons)
    then have "py_split_aux sep cur (sep @ suf) = cur # py_split_aux sep [] suf"
      unfolding cs [symmetric] .
    then show ?thesis
      using Nil py_split_aux_none [OF ns, of "[]"] by simp
  next
    case (Cons p pre')
    define xs where "xs = pre' @ sep @ suf"
    have whole: "pre @ sep @ suf = p # xs"
      by (simp add: Cons xs_def)
    show ?thesis
    proof (cases "prefix sep (p # xs)")
      case True
      with whole have "prefix sep (pre @ sep @ suf)" by simp
      from no_overlap [OF sep g this] Cons have len: "length sep \<le> length pre" by simp
      have dr: "drop (length sep) (p # xs) = drop (length sep) pre @ sep @ suf"
        using len whole [symmetric] by simp
      have shorter: "length (drop (length sep) pre) < length pre"
        using Cons sep by simp
      have "py_split_aux sep cur (p # xs) =
              cur # py_split_aux sep [] (drop (length sep) pre @ sep @ suf)"
        using True sep dr by simp
      with less [OF shorter, of "[]"] py_split_aux_nonempty [of sep "[]"] whole
      show ?thesis by simp
    next
      case False
      then have "py_split_aux sep cur (p # xs) = py_split_aux sep (cur @ [p]) xs"
        by simp
      with less [of pre' "cur @ [p]"] Cons whole show ?thesis
        by (simp add: xs_def)
    qed
  qed
qed

lemma gq_border_free:
  "''generated quantities'' \<noteq> []"
  "hd ''generated quantities'' \<notin> set (tl ''generated quantities'')"
  by simp_all

lemma py_split_last_after:
  "\<not> sublist ''generated quantities'' suf \<Longrightarrow>
   last (py_split ''generated quantities'' (pre @ ''generated quantities'' @ suf)) = suf"
  unfolding py_split_def
  by (rule py_split_aux_last [OF gq_border_free])

lemma py_split_last_none:
  "\<not> sublist ''generated quantities'' s \<Longrightarrow> last (py_split ''generated quantities'' s) = s"
  unfolding py_split_def using py_split_aux_none [of "''generated quantities''" s "[]"] by simp

lemma dtypes_of_keys:
  "fst ` set (dtypes_of var_names items acc) =
     fst ` set acc \<union> (py_strip ` set items \<inter> set var_names)"
  by (induction var_names items acc rule: dtypes_of.induct) (auto simp: dom_update)

lemma dtypes_of_values:
  "\<forall>(k, v)\<in>set acc. v = ''int'' \<Longrightarrow> \<forall>(k, v)\<in>set (dtypes_of var_names items acc). v = ''int''"
proof (induction var_names items acc rule: dtypes_of.induct)
  case (1 var_names acc)
  then show ?case by simp
next
  case (2 var_names item items acc)
  have "\<forall>(k, v)\<in>set (AList.update (py_strip item) ''int'' acc). v = ''int''"
    using "2.prems" set_update_subset [of "py_strip item" "''int''" acc] by auto
  with 2 show ?case by auto
qed

lemma match_param_name:
  "match_param r = Some (p, rest) \<Longrightarrow> p \<noteq> [] \<and> (\<forall>c\<in>set p. is_param c)"
  by (auto simp: match_param_def Let_def split: if_splits dest: set_takeWhileD)

lemma first_match_name:
  "first_match rs = Some (p, rest) \<Longrightarrow> p \<noteq> [] \<and> (\<forall>c\<in>set p. is_param c)"
  by (induction rs) (auto split: option.splits dest: match_param_name)

lemma match_int_name:
  "match_int s = Some (p, rest) \<Longrightarrow> p \<noteq> [] \<and> (\<forall>c\<in>set p. is_param c)"
  by (induction s rule: match_int.induct) (auto split: if_splits dest: first_match_name)

lemma findall_int_names:
  "m \<in> set (findall_int s) \<Longrightarrow> m \<noteq> [] \<and> (\<forall>c\<in>set m. is_param c)"
proof (induction s rule: findall_int.induct)
  case 1
  then show ?case by simp
next
  case (2 c cs)
  show ?case
  proof (cases "match_int (c # cs)")
    case None
    with 2 show ?thesis by simp
  next
    case (Some pr)
    obtain p rest where pr: "pr = (p, rest)" by (cases pr)
    with Some 2 match_int_name [of "c # cs" p rest] show ?thesis by auto
  qed
qed

lemma py_strip_no_space:
  "m \<noteq> [] \<Longrightarrow> \<forall>c\<in>set m. \<not> is_space c \<Longrightarrow> py_strip m = m"
proof -
  assume ne: "m \<noteq> []" and ns: "\<forall>c\<in>set m. \<not> is_space c"
  from ne ns have "dropWhile is_space m = m"
    by (cases m) auto
  moreover from ne ns have "dropWhile is_space (rev m) = rev m"
    by (cases "rev m") (auto simp: in_set_conv_decomp dest!: arg_cong [where f = set])
  ultimately show ?thesis by (simp add: py_strip_def)
qed

lemma findall_int_strip:
  "m \<in> set (findall_int s) \<Longrightarrow> py_strip m = m"
  using findall_int_names [of m s] by (auto intro!: py_strip_no_space simp: is_param_def)

section \<open>Properties of the converters\<close>










lemma requires_Inr:
  "requires prop func = Inr r \<Longrightarrow> (r = None \<longleftrightarrow> prop = None)"
  by (auto simp: requires_def split: option.splits sum.splits)

lemma pm_to_inference_data_groups:
  assumes "pm_to_inference_data self = Inr idata"
  shows "\<exists>po ss pp pr. groups idata =
           [(''posterior'', po), (''sample_stats'', ss), (''posterior_predictive'', pp),
            (''prior'', pr)] \<and>
           (po = None \<longleftrightarrow> pm_trace self = None) \<and> (ss = None \<longleftrightarrow> pm_trace self = None) \<and>
           (pp = None \<longleftrightarrow> pm_posterior_predictive self = None) \<and>
           (pr = None \<longleftrightarrow> pm_prior self = None)"
  using assms
  by (auto simp: pm_to_inference_data_def pm_posterior_to_xarray_def pm_sample_stats_to_xarray_def
      pm_posterior_predictive_to_xarray_def pm_prior_to_xarray_def
      split: sum.splits dest!: requires_Inr)

lemma ps_to_inference_data_groups:
  assumes "pystan_to_inference_data fit coords dims = Inr idata"
  shows "fit \<noteq> None \<and> (\<exists>po ss. groups idata = [(''posterior'', Some po), (''sample_stats'', Some ss)])"
  using assms
  by (auto simp: pystan_to_inference_data_def ps_to_inference_data_def ps_posterior_to_xarray_def
      ps_sample_stats_to_xarray_def split: sum.splits option.splits dest!: requires_Inr)

subsection \<open>The artist of the posterior plot\<close>

lemma np_min_Min: "xs \<noteq> [] \<Longrightarrow> np_min xs = Inr (Min (set xs))"
  by (cases xs) (simp_all add: np_min_def Min.set_eq_fold [symmetric])

lemma np_max_Max: "xs \<noteq> [] \<Longrightarrow> np_max xs = Inr (Max (set xs))"
  by (cases xs) (simp_all add: np_max_def Max.set_eq_fold [symmetric])

lemma draw_distribution_kde:
  "kind = ''kde'' \<and> dtype_kind vals = CHR ''f'' \<Longrightarrow>
     draw_distribution np_add vals kind bins ax = (ax @ [KdePlot], None)"
  by (simp add: draw_distribution_def)

lemma draw_distribution_given:
  "\<not> (kind = ''kde'' \<and> dtype_kind vals = CHR ''f'') \<Longrightarrow>
     draw_distribution np_add vals kind (Some b) ax = (ax @ [Hist b], None)"
  by (simp add: draw_distribution_def)

lemma draw_distribution_int:
  "xs \<noteq> [] \<Longrightarrow>
     draw_distribution np_add (IntSamples xs) kind None ax =
       (ax @ [SetXlim (Min (set xs)) (Max (set xs)),
              Hist (BinsRange (Min (set xs)) (np_add (Max (set xs)) 2))], None)"
  by (simp add: draw_distribution_def np_min_Min np_max_Max)

lemma draw_distribution_empty:
  "draw_distribution np_add (IntSamples []) kind None ax =
     (ax, Some (ValueError ''zero-size array to reduction operation minimum which has no identity''))"
  by (simp add: draw_distribution_def np_min_def)

lemma draw_distribution_auto:
  "\<not> (kind = ''kde'' \<and> dtype_kind vals = CHR ''f'') \<Longrightarrow> dtype_kind vals \<noteq> CHR ''i'' \<Longrightarrow>
     draw_distribution np_add vals kind None ax = (ax @ [Hist BinsAuto], None)"
  by (cases vals) (simp_all add: draw_distribution_def)

lemma plot_posterior_op_shape:
  "\<exists>rest. fst (plot_posterior_op np_add hpd vals ax bins kind pe rv rope) =
      fst (draw_distribution np_add vals kind bins ax) @ rest \<and> list_all later_draw rest
      \<and> (snd (draw_distribution np_add vals kind bins ax) \<noteq> None \<longrightarrow>
           rest = [] \<and> snd (plot_posterior_op np_add hpd vals ax bins kind pe rv rope) =
              snd (draw_distribution np_add vals kind bins ax))"
proof -
  obtain a e where r: "draw_distribution np_add vals kind bins ax = (a, e)"
    by (cases "draw_distribution np_add vals kind bins ax")
  show ?thesis
    unfolding plot_posterior_op_def r
    by (auto simp: and_then_def format_axes_def display_hpd_def display_point_estimate_def
        display_ref_val_def display_rope_def later_draw_def
        split: option.splits ref_val_arg.splits rope_arg.splits)
qed

lemma plot_posterior_op_distribution:
  assumes "\<not> later_draw d"
  shows "d \<in> set (fst (plot_posterior_op np_add hpd vals ax bins kind pe rv rope)) \<longleftrightarrow>
         d \<in> set (fst (draw_distribution np_add vals kind bins ax))"
proof -
  obtain rest where
    eq: "fst (plot_posterior_op np_add hpd vals ax bins kind pe rv rope) =
           fst (draw_distribution np_add vals kind bins ax) @ rest"
    and later: "list_all later_draw rest"
    using plot_posterior_op_shape [of np_add hpd vals ax bins kind pe rv rope] by blast
  from later assms have "d \<notin> set rest" by (auto simp: list_all_iff)
  with eq show ?thesis by simp
qed

lemma plot_posterior_op_first_raises:
  assumes "draw_distribution np_add vals kind bins ax = (ax', Some e)"
  shows "plot_posterior_op np_add hpd vals ax bins kind pe rv rope = (ax', Some e)"
  using assms by (simp add: plot_posterior_op_def and_then_def)

lemma display_point_estimate_mode:
  "display_point_estimate (Some ''mode'') vals ax = (ax, Some (AttributeError ''iloc''))"
  by (simp add: display_point_estimate_def)

lemma plot_posterior_op_mode:
  "\<exists>rest. plot_posterior_op np_add hpd vals ax bins kind (Some ''mode'') rv rope =
      (fst (draw_distribution np_add vals kind bins ax) @ rest,
       (case snd (draw_distribution np_add vals kind bins ax) of
          Some e \<Rightarrow> Some e
        | None \<Rightarrow> (case hpd vals of Some e \<Rightarrow> Some e | None \<Rightarrow> Some (AttributeError ''iloc''))))
      \<and> set rest \<subseteq> {FormatAxes, HpdInterval}"
proof -
  obtain a e where r: "draw_distribution np_add vals kind bins ax = (a, e)"
    by (cases "draw_distribution np_add vals kind bins ax")
  show ?thesis
    unfolding plot_posterior_op_def r
    by (auto simp: and_then_def format_axes_def display_hpd_def display_point_estimate_mode
        split: option.splits)
qed

lemma draw_distribution_draws:
  "set (fst (draw_distribution np_add vals kind bins ax)) \<subseteq>
     set ax \<union> {KdePlot} \<union> range Hist \<union> {d. \<exists>lo hi. d = SetXlim lo hi}"
  by (auto simp: draw_distribution_def split: option.splits sample_array.splits sum.splits)


subsection \<open>What the stripping of comments and string literals removes\<close>

lemma set_remove_comments: "set (remove_comments s) \<subseteq> set s"
proof (induction s rule: remove_comments.induct)
  case 1
  then show ?case by simp
next
  case (2 c cs)
  show ?case
  proof (cases "match_comment (c # cs)")
    case None
    with 2 show ?thesis by auto
  next
    case (Some n)
    with 2 have "set (remove_comments (drop (n - 1) cs)) \<subseteq> set (drop (n - 1) cs)" by simp
    also have "\<dots> \<subseteq> set cs" by (rule set_drop_subset)
    finally show ?thesis using Some by auto
  qed
qed

lemma set_join: "set (join sep xs) \<subseteq> set sep \<union> \<Union> (set ` set xs)"
  by (induction sep xs rule: join.induct) auto

lemma strip_hash_no_hash: "CHR ''#'' \<notin> set (strip_hash l)"
  by (auto simp: strip_hash_def dest: set_takeWhileD)

lemma takeWhile_stop: "x \<notin> set a \<Longrightarrow> takeWhile (\<lambda>c. c \<noteq> x) (a @ x # b) = a"
  by (induction a) auto

lemma strip_hash_cut: "CHR ''#'' \<notin> set a \<Longrightarrow> strip_hash (a @ CHR ''#'' # b) = a"
  by (simp add: strip_hash_def takeWhile_stop)

lemma strip_hash_keep: "CHR ''#'' \<notin> set a \<Longrightarrow> strip_hash a = a"
  by (simp add: strip_hash_def)

lemma strip_comments_no_hash: "CHR ''#'' \<notin> set (strip_comments s)"
proof
  assume "CHR ''#'' \<in> set (strip_comments s)"
  then have "CHR ''#'' \<in> set (join [CHR 0x0A] (map strip_hash (splitlines s)))"
    using set_remove_comments unfolding strip_comments_def by blast
  then have "CHR ''#'' \<in> set [CHR 0x0A] \<union> \<Union> (set ` set (map strip_hash (splitlines s)))"
    using set_join by blast
  then show False using strip_hash_no_hash by auto
qed

lemma splitlines_aux_line:
  "\<forall>c\<in>set l. \<not> is_linebreak c \<Longrightarrow>
     splitlines_aux cur (l @ CHR 0x0A # r) = (cur @ l) # splitlines_aux [] r"
proof (induction l arbitrary: cur)
  case Nil
  show ?case by (cases r) (simp_all add: is_linebreak_def)
next
  case (Cons c l)
  then have c: "\<not> is_linebreak c" and "\<forall>c\<in>set l. \<not> is_linebreak c" by simp_all
  from c have "c \<noteq> CHR 0x0D" by (auto simp: is_linebreak_def)
  obtain d cs where dcs: "l @ CHR 0x0A # r = d # cs" by (cases "l @ CHR 0x0A # r") simp_all
  have "splitlines_aux cur (c # l @ CHR 0x0A # r) = splitlines_aux (cur @ [c]) (l @ CHR 0x0A # r)"
    using c \<open>c \<noteq> CHR 0x0D\<close> unfolding dcs by simp
  with Cons.IH [of "cur @ [c]"] \<open>\<forall>c\<in>set l. \<not> is_linebreak c\<close> show ?case by simp
qed

lemma splitlines_aux_last:
  "\<forall>c\<in>set l. \<not> is_linebreak c \<Longrightarrow>
     splitlines_aux cur l = (if cur @ l = [] then [] else [cur @ l])"
proof (induction l arbitrary: cur)
  case Nil
  show ?case by simp
next
  case (Cons c l)
  then have c: "\<not> is_linebreak c" and l: "\<forall>c\<in>set l. \<not> is_linebreak c" by simp_all
  from c have "c \<noteq> CHR 0x0D" by (auto simp: is_linebreak_def)
  show ?case
  proof (cases l)
    case Nil
    with c show ?thesis by simp
  next
    case (Cons d cs)
    have "splitlines_aux cur (c # l) = splitlines_aux (cur @ [c]) l"
      using c \<open>c \<noteq> CHR 0x0D\<close> unfolding Cons by simp
    with Cons.IH [of "cur @ [c]"] l show ?thesis by simp
  qed
qed

lemma splitlines_join:
  assumes "\<forall>l\<in>set ls. \<forall>c\<in>set l. \<not> is_linebreak c" and "ls \<noteq> [] \<longrightarrow> last ls \<noteq> []"
  shows "splitlines (join [CHR 0x0A] ls) = ls"
  using assms
proof (induction "[CHR 0x0A]" ls rule: join.induct)
  case 1
  show ?case by (simp add: splitlines_def)
next
  case (2 x)
  then show ?case by (simp add: splitlines_def splitlines_aux_last)
next
  case (3 x y ys)
  then have "splitlines (join [CHR 0x0A] (y # ys)) = y # ys" by simp
  moreover have "splitlines_aux [] (x @ CHR 0x0A # join [CHR 0x0A] (y # ys)) =
      x # splitlines_aux [] (join [CHR 0x0A] (y # ys))"
    using splitlines_aux_line [of x "[]"] 3 by simp
  ultimately show ?case by (simp add: splitlines_def)
qed

lemma strip_comments_lines:
  assumes "\<forall>l\<in>set ls. \<forall>c\<in>set l. \<not> is_linebreak c" and "ls \<noteq> [] \<longrightarrow> last ls \<noteq> []"
  shows "strip_comments (join [CHR 0x0A] ls) = remove_comments (join [CHR 0x0A] (map strip_hash ls))"
  using splitlines_join [OF assms] by (simp add: strip_comments_def)

lemma block_end_first:
  "\<not> sublist ''*/'' (body @ ''*'') \<Longrightarrow> block_end (body @ ''*/'' @ rest) = Some (length body + 2)"
proof (induction body)
  case Nil
  show ?case by simp
next
  case (Cons c b)
  have nb: "\<not> sublist ''*/'' (b @ ''*'')"
    using Cons.prems by (auto simp: sublist_Cons_right)
  obtain d cs where dcs: "b @ ''*/'' @ rest = d # cs" by (cases "b @ ''*/'' @ rest") simp_all
  have "\<not> (c = CHR ''*'' \<and> d = CHR ''/'')"
  proof
    assume cd: "c = CHR ''*'' \<and> d = CHR ''/''"
    then have "b \<noteq> []" using dcs by (cases b) auto
    then obtain b' where "b = d # b'" using dcs by (cases b) auto
    with cd have "prefix ''*/'' ((c # b) @ ''*'')" by simp
    then show False using Cons.prems by (meson prefix_imp_sublist)
  qed
  then have "block_end (c # b @ ''*/'' @ rest) = map_option Suc (block_end (b @ ''*/'' @ rest))"
    unfolding dcs by auto
  with Cons.IH [OF nb] show ?case by simp
qed

lemma string_end_first:
  "q \<notin> set body \<Longrightarrow> CHR 0x5C \<notin> set body \<Longrightarrow>
     string_end q (body @ q # rest) = Some (length body + 1)"
proof (induction body)
  case Nil
  show ?case by (cases rest) simp_all
next
  case (Cons c b)
  obtain d cs where dcs: "b @ q # rest = d # cs" by (cases "b @ q # rest") simp_all
  have "string_end q (c # b @ q # rest) = map_option Suc (string_end q (b @ q # rest))"
    using Cons.prems unfolding dcs by auto
  with Cons show ?case by simp
qed

lemma remove_comments_code:
  "c \<noteq> CHR ''/'' \<Longrightarrow> c \<noteq> CHR 0x27 \<Longrightarrow> c \<noteq> CHR 0x22 \<Longrightarrow>
     remove_comments (c # rest) = c # remove_comments rest"
  by (cases rest) simp_all

lemma remove_comments_line:
  assumes "CHR 0x0A \<notin> set body"
  shows "remove_comments (''//'' @ body @ CHR 0x0A # rest) = CHR 0x0A # remove_comments rest"
proof -
  have "takeWhile (\<lambda>x. x \<noteq> CHR 0x0A) (body @ CHR 0x0A # rest) = body"
    using assms by (rule takeWhile_stop)
  then have a: "remove_comments (''//'' @ body @ CHR 0x0A # rest) = remove_comments (CHR 0x0A # rest)"
    by simp
  have b: "remove_comments (CHR 0x0A # rest) = CHR 0x0A # remove_comments rest"
    by (rule remove_comments_code) simp_all
  show ?thesis unfolding a b ..
qed

lemma remove_comments_block:
  assumes "\<not> sublist ''*/'' (body @ ''*'')"
  shows "remove_comments (''/*'' @ body @ ''*/'' @ rest) = remove_comments rest"
  using block_end_first [OF assms, of rest] by simp

lemma remove_comments_string:
  assumes "q = CHR 0x27 \<or> q = CHR 0x22" and "q \<notin> set body" and "CHR 0x5C \<notin> set body"
  shows "remove_comments (q # body @ q # rest) = remove_comments rest"
proof -
  obtain d cs where dcs: "body @ q # rest = d # cs" by (cases "body @ q # rest") simp_all
  have "match_comment (q # body @ q # rest) = Some (length body + 2)"
    using assms string_end_first [OF assms(2,3), of rest] unfolding dcs by auto
  then show ?thesis by simp
qed

lemma remove_comments_line_end:
  assumes "CHR 0x0A \<notin> set body"
  shows "remove_comments (''//'' @ body) = []"
proof -
  have tw: "takeWhile (\<lambda>x. x \<noteq> CHR 0x0A) body = body"
    using assms by (auto simp: takeWhile_eq_all_conv)
  show ?thesis by (simp add: tw)
qed

section \<open>Claims about \<open>numpy_to_data_array\<close> and \<open>dict_to_dataset\<close>\<close>

text \<open>
  C3. When \<open>dims\<close> is \<open>None\<close>, \<open>numpy_to_data_array\<close> infers the dimensions from the shape:
  a 1-d array of length \<open>n\<close> becomes shape \<open>(1, n)\<close>, one chain and \<open>n\<close> draws; a 2-d array of
  shape \<open>(m, n)\<close> is kept as \<open>m\<close> chains and \<open>n\<close> draws; an array of shape
  \<open>(c, d, s1, ..., sk)\<close> keeps \<open>c\<close> chains and \<open>d\<close> draws and its trailing axis \<open>i\<close> is named
  \<open>{var_name}_dim_{i}\<close> with labels \<open>0..si-1\<close>. In each case the call succeeds, whatever
  \<open>coords\<close> the caller passed.
\<close>

theorem numpy_to_data_array_infers_shape:
  "numpy_to_data_array (Ndarray [n]) var_name coords None =
     Inr \<lparr>da_values = Ndarray [1, n], da_dims = [''chain'', ''draw''],
          da_coords = [(''chain'', arange 1), (''draw'', arange n)]\<rparr>
   \<and> numpy_to_data_array (Ndarray [m, n]) var_name coords None =
     Inr \<lparr>da_values = Ndarray [m, n], da_dims = [''chain'', ''draw''],
          da_coords = [(''chain'', arange m), (''draw'', arange n)]\<rparr>
   \<and> numpy_to_data_array (Ndarray (c # d # s1 # ss)) var_name coords None =
     Inr \<lparr>da_values = Ndarray (c # d # s1 # ss),
          da_dims = ''chain'' # ''draw'' #
                    map (\<lambda>i. var_name @ ''_dim_'' @ string_of_nat i) [0..<length (s1 # ss)],
          da_coords = (''chain'', arange c) # (''draw'', arange d) #
                      map (\<lambda>i. (var_name @ ''_dim_'' @ string_of_nat i, arange ((s1 # ss) ! i)))
                        [0..<length (s1 # ss)]\<rparr>"
proof -
  have "s1 # ss \<noteq> []" by simp
  from numpy_to_data_array_nd [OF this, of c d var_name coords]
  have "numpy_to_data_array (Ndarray (c # d # s1 # ss)) var_name coords None =
     Inr \<lparr>da_values = Ndarray (c # d # s1 # ss),
          da_dims = ''chain'' # ''draw'' #
                    map (\<lambda>i. var_name @ ''_dim_'' @ string_of_nat i) [0..<length (s1 # ss)],
          da_coords = (''chain'', arange c) # (''draw'', arange d) #
                      map (\<lambda>i. (var_name @ ''_dim_'' @ string_of_nat i, arange ((s1 # ss) ! i)))
                        [0..<length (s1 # ss)]\<rparr>"
    unfolding dim_name_def .
  then show ?thesis
    using numpy_to_data_array_1d [of n var_name coords]
      numpy_to_data_array_2d [of m n var_name coords]
    by (simp only: simp_thms)
qed

theorem numpy_to_data_array_infers_shape_witness:
  "numpy_to_data_array (Ndarray [5]) ''x'' None None =
     Inr \<lparr>da_values = Ndarray [1, 5], da_dims = [''chain'', ''draw''],
          da_coords = [(''chain'', [IntLabel 0]),
                       (''draw'', [IntLabel 0, IntLabel 1, IntLabel 2, IntLabel 3, IntLabel 4])]\<rparr>
   \<and> numpy_to_data_array (Ndarray [2, 3, 4, 1]) ''mu'' None None =
     Inr \<lparr>da_values = Ndarray [2, 3, 4, 1],
          da_dims = [''chain'', ''draw'', ''mu_dim_0'', ''mu_dim_1''],
          da_coords = [(''chain'', [IntLabel 0, IntLabel 1]),
                       (''draw'', [IntLabel 0, IntLabel 1, IntLabel 2]),
                       (''mu_dim_0'', [IntLabel 0, IntLabel 1, IntLabel 2, IntLabel 3]),
                       (''mu_dim_1'', [IntLabel 0])]\<rparr>"
  using numpy_to_data_array_infers_shape [of 5 "''x''" None 0 0 0 0 "[]"]
    numpy_to_data_array_infers_shape [of 0 "''mu''" None 0 2 3 4 "[1]"]
  by (simp add: arange_def string_of_nat.simps upt_rec)



text \<open>
  C9 (as amended). With a non-\<open>None\<close> \<open>dims\<close>, \<open>numpy_to_data_array\<close> succeeds only if
  \<open>coords\<close> is a dictionary with an entry for every listed dimension name other than \<open>chain\<close>
  and \<open>draw\<close>. With \<open>coords=None\<close> it fails at \<open>dict(coords)\<close> with a TypeError. With a
  dictionary that misses one of those names it fails as well: with a KeyError for a missing
  name when the array has at least two axes, and already with the ValueError of the shape
  unpacking of line 157 when it has fewer.
\<close>

theorem supplied_dims_need_coords:
  "(numpy_to_data_array ary var_name coords (Some ds) = Inr da \<longrightarrow>
      (\<exists>cs. coords = Some cs \<and>
         (\<forall>d\<in>set ds. d \<noteq> ''chain'' \<and> d \<noteq> ''draw'' \<longrightarrow> map_of cs d \<noteq> None)))
   \<and> numpy_to_data_array ary var_name None (Some ds) =
       Inl (TypeError ''NoneType object is not iterable'')
   \<and> ((\<exists>d\<in>set ds. d \<noteq> ''chain'' \<and> d \<noteq> ''draw'' \<and> map_of cs' d = None) \<longrightarrow>
        (if length (shape ary) < 2
         then numpy_to_data_array ary var_name (Some cs') (Some ds) =
                Inl (ValueError ''not enough values to unpack (expected at least 2)'')
         else \<exists>k\<in>set ds. k \<noteq> ''chain'' \<and> k \<noteq> ''draw'' \<and> map_of cs' k = None \<and>
                numpy_to_data_array ary var_name (Some cs') (Some ds) = Inl (KeyError k)))"
proof (intro conjI impI)
  assume "numpy_to_data_array ary var_name coords (Some ds) = Inr da"
  then show "\<exists>cs. coords = Some cs \<and>
         (\<forall>d\<in>set ds. d \<noteq> ''chain'' \<and> d \<noteq> ''draw'' \<longrightarrow> map_of cs d \<noteq> None)"
    by (rule numpy_to_data_array_needs_coords)
next
  show "numpy_to_data_array ary var_name None (Some ds) =
       Inl (TypeError ''NoneType object is not iterable'')"
    by (rule numpy_to_data_array_no_coords)
next
  assume miss: "\<exists>d\<in>set ds. d \<noteq> ''chain'' \<and> d \<noteq> ''draw'' \<and> map_of cs' d = None"
  show "if length (shape ary) < 2
         then numpy_to_data_array ary var_name (Some cs') (Some ds) =
                Inl (ValueError ''not enough values to unpack (expected at least 2)'')
         else \<exists>k\<in>set ds. k \<noteq> ''chain'' \<and> k \<noteq> ''draw'' \<and> map_of cs' k = None \<and>
                numpy_to_data_array ary var_name (Some cs') (Some ds) = Inl (KeyError k)"
  proof (cases "length (shape ary) < 2")
    case True
    then show ?thesis by (simp add: numpy_to_data_array_short)
  next
    case False
    then have "2 \<le> length (shape ary)" by simp
    from numpy_to_data_array_missing_key [OF this miss, of var_name] False
    show ?thesis by simp
  qed
qed

theorem supplied_dims_need_coords_witness:
  "numpy_to_data_array (Ndarray [2, 3, 2]) ''mu'' (Some []) (Some [''a'']) = Inl (KeyError ''a'')
   \<and> numpy_to_data_array (Ndarray [5]) ''mu'' (Some []) (Some [''a'']) =
       Inl (ValueError ''not enough values to unpack (expected at least 2)'')
   \<and> numpy_to_data_array (Ndarray [2, 3, 2]) ''mu'' None (Some [''a'']) =
       Inl (TypeError ''NoneType object is not iterable'')"
proof -
  have miss: "\<exists>d\<in>set [''a'']. d \<noteq> ''chain'' \<and> d \<noteq> ''draw'' \<and> map_of ([] :: coords) d = None"
    by simp
  note t1 = supplied_dims_need_coords [of "Ndarray [2, 3, 2]" "''mu''" None "[''a'']" undefined "[]"]
  note t2 = supplied_dims_need_coords [of "Ndarray [5]" "''mu''" None "[''a'']" undefined "[]"]
  from t1 miss have "\<exists>k\<in>set [''a'']. k \<noteq> ''chain'' \<and> k \<noteq> ''draw'' \<and> map_of ([] :: coords) k = None \<and>
      numpy_to_data_array (Ndarray [2, 3, 2]) ''mu'' (Some []) (Some [''a'']) = Inl (KeyError k)"
    by simp
  then have a: "numpy_to_data_array (Ndarray [2, 3, 2]) ''mu'' (Some []) (Some [''a'']) =
      Inl (KeyError ''a'')"
    by simp
  from t2 miss have b: "numpy_to_data_array (Ndarray [5]) ''mu'' (Some []) (Some [''a'']) =
       Inl (ValueError ''not enough values to unpack (expected at least 2)'')"
    by simp
  from t1 have c: "numpy_to_data_array (Ndarray [2, 3, 2]) ''mu'' None (Some [''a'']) =
       Inl (TypeError ''NoneType object is not iterable'')"
    by (elim conjE)
  from a b c show ?thesis by (intro conjI)
qed

text \<open>
  The claim as first stated promised a KeyError for every dictionary that misses a name. For a
  one-axis array the unpacking \<open>n_chains, n_samples, *_ = ary.shape\<close> raises first.
\<close>

theorem missing_coords_not_always_KeyError:
  "numpy_to_data_array (Ndarray [5]) ''x'' (Some []) (Some [''a'']) =
     Inl (ValueError ''not enough values to unpack (expected at least 2)'')
   \<and> numpy_to_data_array (Ndarray [5]) ''x'' (Some []) (Some [''a'']) \<noteq> Inl (KeyError ''a'')"
  by code_simp

section \<open>Claim about \<open>PyStanConverter.infer_dtypes\<close>\<close>

text \<open>
  C4. \<open>infer_dtypes\<close> returns a mapping whose keys are model parameter names of the fit and
  whose values are all \<open>'int'\<close>. The keys are exactly the names captured by the integer
  declaration pattern that are model parameters, and the pattern is applied only to the text
  after the last occurrence of \<open>generated quantities\<close> (to the whole text if there is none),
  taken after comments and string literals have been stripped: if the stripped text is
  \<open>pre @ ''generated quantities'' @ suf\<close> with no further occurrence in \<open>suf\<close>, the result is
  computed from \<open>suf\<close> alone. The stripping is this: every line is cut at its first \<open>#\<close>, so
  no \<open>#\<close> is left; then, going left to right, a \<open>//\<close> comment is removed up to the end of its
  line, a block comment up to the first \<open>*/\<close>, a string literal in single or double quotes
  up to its closing quote, and every other character is kept.
\<close>

theorem infer_dtypes_int_after_generated_quantities:
  "fst ` set (infer_dtypes stan_code model_pars) \<subseteq> set model_pars
   \<and> (\<forall>(k, v)\<in>set (infer_dtypes stan_code model_pars). v = ''int'')
   \<and> fst ` set (infer_dtypes stan_code model_pars) =
       set (findall_int (scanned_text stan_code)) \<inter> set model_pars
   \<and> (strip_comments stan_code = pre @ ''generated quantities'' @ suf \<and>
        \<not> sublist ''generated quantities'' suf \<longrightarrow>
        scanned_text stan_code = suf \<and>
        infer_dtypes stan_code model_pars = dtypes_of model_pars (findall_int suf) [])
   \<and> (\<not> sublist ''generated quantities'' (strip_comments stan_code) \<longrightarrow>
        scanned_text stan_code = strip_comments stan_code)
   \<and> CHR ''#'' \<notin> set (strip_comments stan_code)
   \<and> ((\<forall>l\<in>set ls. \<forall>x\<in>set l. \<not> is_linebreak x) \<and> (ls \<noteq> [] \<longrightarrow> last ls \<noteq> []) \<longrightarrow>
        strip_comments (join [CHR 0x0A] ls) =
          remove_comments (join [CHR 0x0A] (map strip_hash ls)))
   \<and> (CHR ''#'' \<notin> set a \<longrightarrow> strip_hash (a @ CHR ''#'' # b) = a \<and> strip_hash a = a)
   \<and> (CHR 0x0A \<notin> set body \<longrightarrow>
        remove_comments (''//'' @ body @ CHR 0x0A # rest) = CHR 0x0A # remove_comments rest
        \<and> remove_comments (''//'' @ body) = [])
   \<and> (\<not> sublist ''*/'' (body @ ''*'') \<longrightarrow>
        remove_comments (''/*'' @ body @ ''*/'' @ rest) = remove_comments rest)
   \<and> ((q = CHR 0x27 \<or> q = CHR 0x22) \<and> q \<notin> set body \<and> CHR 0x5C \<notin> set body \<longrightarrow>
        remove_comments (q # body @ q # rest) = remove_comments rest)
   \<and> (c \<noteq> CHR ''/'' \<and> c \<noteq> CHR 0x27 \<and> c \<noteq> CHR 0x22 \<longrightarrow>
        remove_comments (c # rest) = c # remove_comments rest)"
proof -
  let ?found = "findall_int (scanned_text stan_code)"
  have "py_strip ` set ?found = set ?found"
    using findall_int_strip [of _ "scanned_text stan_code"] by (auto simp: image_iff)
  then have keys: "fst ` set (infer_dtypes stan_code model_pars) = set ?found \<inter> set model_pars"
    by (simp add: infer_dtypes_def dtypes_of_keys)
  then have sub: "fst ` set (infer_dtypes stan_code model_pars) \<subseteq> set model_pars"
    by blast
  have vals: "\<forall>(k, v)\<in>set (infer_dtypes stan_code model_pars). v = ''int''"
    unfolding infer_dtypes_def by (rule dtypes_of_values) simp
  have after: "strip_comments stan_code = pre @ ''generated quantities'' @ suf \<and>
        \<not> sublist ''generated quantities'' suf \<longrightarrow>
        scanned_text stan_code = suf \<and>
        infer_dtypes stan_code model_pars = dtypes_of model_pars (findall_int suf) []"
    using py_split_last_after [of suf pre]
    by (simp add: infer_dtypes_def scanned_text_def)
  have none: "\<not> sublist ''generated quantities'' (strip_comments stan_code) \<longrightarrow>
        scanned_text stan_code = strip_comments stan_code"
    using py_split_last_none by (simp add: scanned_text_def)
  have hash: "CHR ''#'' \<notin> set (strip_comments stan_code)"
    by (rule strip_comments_no_hash)
  have lines: "(\<forall>l\<in>set ls. \<forall>x\<in>set l. \<not> is_linebreak x) \<and> (ls \<noteq> [] \<longrightarrow> last ls \<noteq> []) \<longrightarrow>
        strip_comments (join [CHR 0x0A] ls) =
          remove_comments (join [CHR 0x0A] (map strip_hash ls))"
    using strip_comments_lines [of ls] by blast
  have cut: "CHR ''#'' \<notin> set a \<longrightarrow> strip_hash (a @ CHR ''#'' # b) = a \<and> strip_hash a = a"
    using strip_hash_cut [of a b] strip_hash_keep [of a] by blast
  have line: "CHR 0x0A \<notin> set body \<longrightarrow>
        remove_comments (''//'' @ body @ CHR 0x0A # rest) = CHR 0x0A # remove_comments rest
        \<and> remove_comments (''//'' @ body) = []"
    using remove_comments_line [of body rest] remove_comments_line_end [of body] by blast
  have block: "\<not> sublist ''*/'' (body @ ''*'') \<longrightarrow>
        remove_comments (''/*'' @ body @ ''*/'' @ rest) = remove_comments rest"
    using remove_comments_block [of body rest] by blast
  have str: "(q = CHR 0x27 \<or> q = CHR 0x22) \<and> q \<notin> set body \<and> CHR 0x5C \<notin> set body \<longrightarrow>
        remove_comments (q # body @ q # rest) = remove_comments rest"
    using remove_comments_string [of q body rest] by blast
  have code: "c \<noteq> CHR ''/'' \<and> c \<noteq> CHR 0x27 \<and> c \<noteq> CHR 0x22 \<longrightarrow>
        remove_comments (c # rest) = c # remove_comments rest"
    using remove_comments_code [of c rest] by blast
  from sub vals keys after none hash lines cut line block str code show ?thesis
    by (intro conjI)
qed

theorem infer_dtypes_int_after_generated_quantities_witness:
  "strip_comments example_program =
     (''parameters { real mu; }'' @ [CHR 0x0A]) @ ''generated quantities'' @
     ('' {'' @ [CHR 0x0A] @ ''  int<lower=0> k; '' @ [CHR 0x0A] @ ''   int n; '' @ [CHR 0x0A] @
      ''  reject(); reject();'' @ [CHR 0x0A] @ ''}'')
   \<and> infer_dtypes example_program [''a'', ''b'', ''c'', ''d'', ''e'', ''k'', ''n'', ''mu''] =
       [(''k'', ''int''), (''n'', ''int'')]
   \<and> CHR ''#'' \<notin> set (strip_comments example_program)
   \<and> strip_hash ''  int<lower=0> k; # int a;'' = ''  int<lower=0> k; ''
   \<and> remove_comments (''/*'' @ '' int b; '' @ ''*/'' @ '' int n;'') = remove_comments '' int n;''
   \<and> remove_comments (CHR 0x22 # ''int d;'' @ CHR 0x22 # '');'') = remove_comments '');''
   \<and> remove_comments (''//'' @ '' int c;'' @ CHR 0x0A # ''}'') = CHR 0x0A # remove_comments ''}''"
proof -
  let ?pre = "''parameters { real mu; }'' @ [CHR 0x0A]"
  let ?suf = "'' {'' @ [CHR 0x0A] @ ''  int<lower=0> k; '' @ [CHR 0x0A] @ ''   int n; '' @
      [CHR 0x0A] @ ''  reject(); reject();'' @ [CHR 0x0A] @ ''}''"
  let ?pars = "[''a'', ''b'', ''c'', ''d'', ''e'', ''k'', ''n'', ''mu'']"
  note t = infer_dtypes_int_after_generated_quantities
    [where stan_code = example_program and model_pars = ?pars and pre = ?pre and suf = ?suf
      and ls = "[]" and a = "''  int<lower=0> k; ''" and b = "'' int a;''"
      and body = "'' int b; ''" and rest = "'' int n;''" and q = "CHR 0x22" and c = "CHR ''x''"]
  note u = infer_dtypes_int_after_generated_quantities
    [where stan_code = example_program and model_pars = ?pars and pre = ?pre and suf = ?suf
      and ls = "[]" and a = "[]" and b = "[]"
      and body = "''int d;''" and rest = "'');''" and q = "CHR 0x22" and c = "CHR ''x''"]
  note v = infer_dtypes_int_after_generated_quantities
    [where stan_code = example_program and model_pars = ?pars and pre = ?pre and suf = ?suf
      and ls = "[]" and a = "[]" and b = "[]"
      and body = "'' int c;''" and rest = "''}''" and q = "CHR 0x22" and c = "CHR ''x''"]
  have a: "strip_comments example_program = ?pre @ ''generated quantities'' @ ?suf"
    by code_simp
  have b: "\<not> sublist ''generated quantities'' ?suf"
    by code_simp
  have c: "dtypes_of ?pars (findall_int ?suf) [] = [(''k'', ''int''), (''n'', ''int'')]"
    by code_simp
  from t have "strip_comments example_program = ?pre @ ''generated quantities'' @ ?suf \<and>
        \<not> sublist ''generated quantities'' ?suf \<longrightarrow>
        scanned_text example_program = ?suf \<and>
        infer_dtypes example_program ?pars = dtypes_of ?pars (findall_int ?suf) []"
    by (elim conjE)
  from this conjI [OF a b]
  have "scanned_text example_program = ?suf \<and>
        infer_dtypes example_program ?pars = dtypes_of ?pars (findall_int ?suf) []"
    by (rule mp)
  then have d: "infer_dtypes example_program ?pars = [(''k'', ''int''), (''n'', ''int'')]"
    unfolding c by (rule conjunct2)
  from t have e: "CHR ''#'' \<notin> set (strip_comments example_program)"
    by (elim conjE)
  from t have "CHR ''#'' \<notin> set ''  int<lower=0> k; '' \<longrightarrow>
      strip_hash (''  int<lower=0> k; '' @ CHR ''#'' # '' int a;'') = ''  int<lower=0> k; '' \<and>
      strip_hash ''  int<lower=0> k; '' = ''  int<lower=0> k; ''"
    by (elim conjE)
  then have f: "strip_hash ''  int<lower=0> k; # int a;'' = ''  int<lower=0> k; ''"
    by simp
  from t have "\<not> sublist ''*/'' ('' int b; '' @ ''*'') \<longrightarrow>
      remove_comments (''/*'' @ '' int b; '' @ ''*/'' @ '' int n;'') = remove_comments '' int n;''"
    by (elim conjE)
  moreover have "\<not> sublist ''*/'' ('' int b; '' @ ''*'')"
    by code_simp
  ultimately have g: "remove_comments (''/*'' @ '' int b; '' @ ''*/'' @ '' int n;'') =
      remove_comments '' int n;''"
    by (rule mp)
  from u have "(CHR 0x22 = CHR 0x27 \<or> CHR 0x22 = CHR 0x22) \<and> CHR 0x22 \<notin> set ''int d;'' \<and>
      CHR 0x5C \<notin> set ''int d;'' \<longrightarrow>
      remove_comments (CHR 0x22 # ''int d;'' @ CHR 0x22 # '');'') = remove_comments '');''"
    by (elim conjE)
  moreover have "(CHR 0x22 = CHR 0x27 \<or> CHR 0x22 = CHR 0x22) \<and> CHR 0x22 \<notin> set ''int d;'' \<and>
      CHR 0x5C \<notin> set ''int d;''"
    by simp
  ultimately have h: "remove_comments (CHR 0x22 # ''int d;'' @ CHR 0x22 # '');'') =
      remove_comments '');''"
    by (rule mp)
  from v have "CHR 0x0A \<notin> set '' int c;'' \<longrightarrow>
      remove_comments (''//'' @ '' int c;'' @ CHR 0x0A # ''}'') = CHR 0x0A # remove_comments ''}''
      \<and> remove_comments (''//'' @ '' int c;'') = []"
    by (elim conjE)
  moreover have "CHR 0x0A \<notin> set '' int c;''"
    by simp
  ultimately have "remove_comments (''//'' @ '' int c;'' @ CHR 0x0A # ''}'') =
      CHR 0x0A # remove_comments ''}'' \<and> remove_comments (''//'' @ '' int c;'') = []"
    by (rule mp)
  then have i: "remove_comments (''//'' @ '' int c;'' @ CHR 0x0A # ''}'') =
      CHR 0x0A # remove_comments ''}''"
    by (rule conjunct1)
  from a d e f g h i show ?thesis by (intro conjI)
qed

section \<open>Claims about \<open>convert_to_inference_data\<close> and the framework converters\<close>







text \<open>
  C6. Every InferenceData that the framework converters produce has its groups among
  posterior, prior, posterior_predictive and sample_stats. The PyMC3 conversion passes all
  four groups, a group being \<open>None\<close> exactly when its source attribute is \<open>None\<close>; the PyStan
  conversion passes exactly posterior and sample_stats, both with a dataset.
\<close>

theorem framework_converters_groups:
  "(pymc3_to_inference_data tr pri ppc coords dims = Inr idata \<longrightarrow>
      map fst (groups idata) =
        [''posterior'', ''sample_stats'', ''posterior_predictive'', ''prior''] \<and>
      (map_of (groups idata) ''posterior'' = Some None \<longleftrightarrow> tr = None) \<and>
      (map_of (groups idata) ''sample_stats'' = Some None \<longleftrightarrow> tr = None) \<and>
      (map_of (groups idata) ''posterior_predictive'' = Some None \<longleftrightarrow> ppc = None) \<and>
      (map_of (groups idata) ''prior'' = Some None \<longleftrightarrow> pri = None))
   \<and> (pystan_to_inference_data fit coords' dims' = Inr idata' \<longrightarrow>
        (\<exists>po ss. groups idata' = [(''posterior'', Some po), (''sample_stats'', Some ss)]))"
proof (intro conjI impI)
  assume ok: "pystan_to_inference_data fit coords' dims' = Inr idata'"
  from ps_to_inference_data_groups [OF ok]
  show "\<exists>po ss. groups idata' = [(''posterior'', Some po), (''sample_stats'', Some ss)]"
    by blast
next
  assume ok: "pymc3_to_inference_data tr pri ppc coords dims = Inr idata"
  let ?self = "\<lparr>pm_trace = tr, pm_prior = pri, pm_posterior_predictive = ppc,
        pm_coords = coords, pm_dims = dims\<rparr>"
  from ok have "pm_to_inference_data ?self = Inr idata"
    by (simp add: pymc3_to_inference_data_def)
  from pm_to_inference_data_groups [OF this] obtain po ss pp pr where
    g: "groups idata = [(''posterior'', po), (''sample_stats'', ss),
          (''posterior_predictive'', pp), (''prior'', pr)]"
    and n: "po = None \<longleftrightarrow> tr = None" "ss = None \<longleftrightarrow> tr = None"
      "pp = None \<longleftrightarrow> ppc = None" "pr = None \<longleftrightarrow> pri = None"
    by auto
  from g show "map fst (groups idata) =
      [''posterior'', ''sample_stats'', ''posterior_predictive'', ''prior'']" by simp
  from g n(1) show "map_of (groups idata) ''posterior'' = Some None \<longleftrightarrow> tr = None" by simp
  from g n(2) show "map_of (groups idata) ''sample_stats'' = Some None \<longleftrightarrow> tr = None" by simp
  from g n(3) show "map_of (groups idata) ''posterior_predictive'' = Some None \<longleftrightarrow> ppc = None"
    by simp
  from g n(4) show "map_of (groups idata) ''prior'' = Some None \<longleftrightarrow> pri = None" by simp
qed

theorem framework_converters_groups_witness:
  "(\<exists>idata. pymc3_to_inference_data (Some example_trace) None None None None = Inr idata \<and>
      map fst (groups idata) =
        [''posterior'', ''sample_stats'', ''posterior_predictive'', ''prior''] \<and>
      map_of (groups idata) ''prior'' = Some None \<and>
      map_of (groups idata) ''posterior'' \<noteq> Some None)
   \<and> (\<exists>idata' po ss. pystan_to_inference_data (Some example_fit) None None = Inr idata' \<and>
        groups idata' = [(''posterior'', Some po), (''sample_stats'', Some ss)])"
proof -
  have "\<not> isl (pymc3_to_inference_data (Some example_trace) None None None None)"
    by code_simp
  then obtain idata where
    a: "pymc3_to_inference_data (Some example_trace) None None None None = Inr idata"
    by (cases "pymc3_to_inference_data (Some example_trace) None None None None") auto
  have "\<not> isl (pystan_to_inference_data (Some example_fit) None None)"
    by code_simp
  then obtain idata' where
    b: "pystan_to_inference_data (Some example_fit) None None = Inr idata'"
    by (cases "pystan_to_inference_data (Some example_fit) None None") auto
  note t = framework_converters_groups [of "Some example_trace" None None None None idata
      "Some example_fit" None None idata']
  note p = conjunct1 [OF t, THEN mp, OF a]
  note q = conjunct2 [OF t, THEN mp, OF b]
  from p have k: "map fst (groups idata) =
        [''posterior'', ''sample_stats'', ''posterior_predictive'', ''prior'']"
    by (rule conjunct1)
  from p have "(map_of (groups idata) ''prior'' = Some None) = (None = (None :: ndarray dict option))"
    by (elim conjE)
  then have pr: "map_of (groups idata) ''prior'' = Some None"
    by (simp only: simp_thms)
  from p have "(map_of (groups idata) ''posterior'' = Some None) = (Some example_trace = None)"
    by (elim conjE)
  then have po: "map_of (groups idata) ''posterior'' \<noteq> Some None"
    by (simp only: option.distinct simp_thms not_False_eq_True)
  from a k pr po have first:
    "\<exists>idata. pymc3_to_inference_data (Some example_trace) None None None None = Inr idata \<and>
      map fst (groups idata) =
        [''posterior'', ''sample_stats'', ''posterior_predictive'', ''prior''] \<and>
      map_of (groups idata) ''prior'' = Some None \<and>
      map_of (groups idata) ''posterior'' \<noteq> Some None"
    by (intro exI [of _ idata] conjI)
  from q obtain po' ss' where
    g: "groups idata' = [(''posterior'', Some po'), (''sample_stats'', Some ss')]"
    by (elim exE)
  from b g have second:
    "\<exists>idata' po ss. pystan_to_inference_data (Some example_fit) None None = Inr idata' \<and>
        groups idata' = [(''posterior'', Some po), (''sample_stats'', Some ss)]"
    by (intro exI [of _ idata'] exI [of _ po'] exI [of _ ss'] conjI)
  from first second show ?thesis by (rule conjI)
qed

text \<open>
  C8. \<open>convert_to_inference_data\<close> returns every InferenceData input unchanged, and
  \<open>convert_to_dataset\<close> applied to an \<open>xarray.Dataset\<close> returns that dataset, whatever the
  requested group.
\<close>

theorem convert_is_idempotent:
  "convert_to_inference_data from_netcdf (ObjInferenceData idata) group_name coords dims =
     Inr idata
   \<and> convert_to_dataset from_netcdf (ObjDataset ds) group_name coords dims = Inr ds"
  by (simp add: convert_to_inference_data_def convert_to_dataset_def getattr_group_def)

theorem convert_is_idempotent_witness:
  "convert_to_inference_data missing_file
     (ObjInferenceData (InferenceData [(''prior'', Some (Dataset []))])) ''posterior'' None None =
     Inr (InferenceData [(''prior'', Some (Dataset []))])
   \<and> convert_to_dataset missing_file (ObjDataset (Dataset [])) ''posterior'' None None =
     Inr (Dataset [])"
  by (rule convert_is_idempotent)

section \<open>The claims about the posterior plot\<close>

text \<open>
  C7 (as amended). On fresh axes \<open>_plot_posterior_op\<close> draws a kernel density curve exactly
  when \<open>kind == 'kde'\<close> and the values have a floating point dtype. In every other case it
  draws a histogram, unless the values are an empty array of signed integers and \<open>bins\<close> is
  \<open>None\<close>: then \<open>values.min()\<close> raises a ValueError and nothing is drawn. For a non-empty array
  of signed integers with \<open>bins\<close> left as \<open>None\<close> the bins of the histogram are
  \<open>range(xmin, xmax + 2)\<close> over the minimum and the maximum of the data, the sum being the one
  numpy computes. Bins that the caller gives are used as they are, and floating point values
  with \<open>bins\<close> left as \<open>None\<close> get \<open>'auto'\<close>.
\<close>

theorem density_or_histogram:
  "(KdePlot \<in> set (fst (plot_posterior_op np_add hpd vals [] bins kind pe rv rope)) \<longleftrightarrow>
      kind = ''kde'' \<and> dtype_kind vals = CHR ''f'')
   \<and> ((\<exists>b. Hist b \<in> set (fst (plot_posterior_op np_add hpd vals [] bins kind pe rv rope))) \<longleftrightarrow>
        \<not> (kind = ''kde'' \<and> dtype_kind vals = CHR ''f'') \<and> \<not> (bins = None \<and> vals = IntSamples []))
   \<and> (bins = None \<and> vals = IntSamples [] \<longrightarrow>
        plot_posterior_op np_add hpd vals [] bins kind pe rv rope =
          ([], Some (ValueError
             ''zero-size array to reduction operation minimum which has no identity'')))
   \<and> (bins = None \<and> vals = IntSamples xs \<and> xs \<noteq> [] \<longrightarrow>
        (\<forall>b. Hist b \<in> set (fst (plot_posterior_op np_add hpd vals [] bins kind pe rv rope)) \<longleftrightarrow>
           b = BinsRange (Min (set xs)) (np_add (Max (set xs)) 2)))
   \<and> (bins = Some given \<and> \<not> (kind = ''kde'' \<and> dtype_kind vals = CHR ''f'') \<longrightarrow>
        (\<forall>b. Hist b \<in> set (fst (plot_posterior_op np_add hpd vals [] bins kind pe rv rope)) \<longleftrightarrow>
           b = given))
   \<and> (bins = None \<and> vals = FloatSamples n \<and> kind \<noteq> ''kde'' \<longrightarrow>
        (\<forall>b. Hist b \<in> set (fst (plot_posterior_op np_add hpd vals [] bins kind pe rv rope)) \<longleftrightarrow>
           b = BinsAuto))"
proof -
  have kde: "KdePlot \<in> set (fst (plot_posterior_op np_add hpd vals [] bins kind pe rv rope)) \<longleftrightarrow>
      KdePlot \<in> set (fst (draw_distribution np_add vals kind bins []))"
    by (rule plot_posterior_op_distribution) (simp add: later_draw_def)
  have hist: "Hist b \<in> set (fst (plot_posterior_op np_add hpd vals [] bins kind pe rv rope)) \<longleftrightarrow>
      Hist b \<in> set (fst (draw_distribution np_add vals kind bins []))" for b
    by (rule plot_posterior_op_distribution) (simp add: later_draw_def)
  show ?thesis
  proof (cases "kind = ''kde'' \<and> dtype_kind vals = CHR ''f''")
    case True
    then have "vals \<noteq> IntSamples ys" for ys by auto
    with True show ?thesis
      unfolding kde hist by (auto simp: draw_distribution_kde)
  next
    case notkde: False
    show ?thesis
    proof (cases bins)
      case (Some given')
      with notkde show ?thesis
        unfolding kde hist by (simp add: draw_distribution_given)
    next
      case None
      show ?thesis
      proof (cases "dtype_kind vals = CHR ''i''")
        case False
        then have "vals \<noteq> IntSamples ys" for ys by auto
        with notkde None False show ?thesis
          unfolding kde hist by (auto simp: draw_distribution_auto)
      next
        case True
        then obtain ys where ys: "vals = IntSamples ys"
          by (cases vals rule: dtype_kind.cases) simp_all
        show ?thesis
        proof (cases "ys = []")
          case True
          have "plot_posterior_op np_add hpd (IntSamples []) [] None kind pe rv rope =
              ([], Some (ValueError
                 ''zero-size array to reduction operation minimum which has no identity''))"
            by (rule plot_posterior_op_first_raises) (rule draw_distribution_empty)
          with True ys None notkde show ?thesis by simp
        next
          case False
          with ys None notkde show ?thesis
            unfolding kde hist by (simp add: draw_distribution_int)
        qed
      qed
    qed
  qed
qed

theorem density_or_histogram_witness:
  "Hist (BinsRange 1 5) \<in>
     set (fst (plot_posterior_op (wrap_add 64) hpd_returns (IntSamples [3, 1, 2]) [] None ''kde''
                 (Some ''mean'') None None))
   \<and> KdePlot \<notin>
     set (fst (plot_posterior_op (wrap_add 64) hpd_returns (IntSamples [3, 1, 2]) [] None ''kde''
                 (Some ''mean'') None None))
   \<and> Hist (BinsRange 125 (- 127)) \<in>
     set (fst (plot_posterior_op (wrap_add 8) hpd_returns (IntSamples [127, 125]) [] None ''hist''
                 (Some ''mean'') None None))
   \<and> Hist BinsAuto \<in>
     set (fst (plot_posterior_op (wrap_add 64) hpd_returns (FloatSamples 4) [] None ''hist''
                 (Some ''mean'') None None))
   \<and> Hist (BinsUser ''10'') \<in>
     set (fst (plot_posterior_op (wrap_add 64) hpd_returns (FloatSamples 4) []
                 (Some (BinsUser ''10'')) ''hist'' (Some ''mean'') None None))"
proof -
  note t1 = density_or_histogram [of "wrap_add 64" hpd_returns "IntSamples [3, 1, 2]" None
      "''kde''" "Some ''mean''" None None "[3, 1, 2]" undefined 0]
  note t2 = density_or_histogram [of "wrap_add 64" hpd_returns "FloatSamples 4" None "''hist''"
      "Some ''mean''" None None "[]" undefined 4]
  note t3 = density_or_histogram [of "wrap_add 64" hpd_returns "FloatSamples 4"
      "Some (BinsUser ''10'')" "''hist''" "Some ''mean''" None None "[]" "BinsUser ''10''" 4]
  note t4 = density_or_histogram [of "wrap_add 8" hpd_returns "IntSamples [127, 125]" None
      "''hist''" "Some ''mean''" None None "[127, 125]" undefined 0]
  have m: "Min (set [3, 1, 2 :: int]) = 1" "wrap_add 64 (Max (set [3, 1, 2 :: int])) 2 = 5"
    "Min (set [127, 125 :: int]) = 125" "wrap_add 8 (Max (set [127, 125 :: int])) 2 = - 127"
    by (simp_all add: wrap_add_def)
  from t1 have a: "Hist (BinsRange 1 5) \<in>
     set (fst (plot_posterior_op (wrap_add 64) hpd_returns (IntSamples [3, 1, 2]) [] None ''kde''
                 (Some ''mean'') None None))"
    unfolding m by simp
  from t1 have b: "KdePlot \<notin>
     set (fst (plot_posterior_op (wrap_add 64) hpd_returns (IntSamples [3, 1, 2]) [] None ''kde''
                 (Some ''mean'') None None))"
    by simp
  from t4 have e: "Hist (BinsRange 125 (- 127)) \<in>
     set (fst (plot_posterior_op (wrap_add 8) hpd_returns (IntSamples [127, 125]) [] None ''hist''
                 (Some ''mean'') None None))"
    unfolding m by simp
  from t2 have c: "Hist BinsAuto \<in>
     set (fst (plot_posterior_op (wrap_add 64) hpd_returns (FloatSamples 4) [] None ''hist''
                 (Some ''mean'') None None))"
    by simp
  from t3 have d: "Hist (BinsUser ''10'') \<in>
     set (fst (plot_posterior_op (wrap_add 64) hpd_returns (FloatSamples 4) []
                 (Some (BinsUser ''10'')) ''hist'' (Some ''mean'') None None))"
    by simp
  from a b e c d show ?thesis by (intro conjI)
qed

text \<open>
  The claim as first stated promised a histogram in every case without a density curve, and
  the bins \<open>range(xmin, xmax + 2)\<close> for every integer dtype. For an empty array of signed
  integers with \<open>bins=None\<close> the call \<open>values.min()\<close> of line 221 raises before \<open>ax.hist\<close> is
  reached, and the axes stay empty. For an array of unsigned integers \<open>dtype.kind\<close> is \<open>u\<close>,
  the test of line 220 fails, and the histogram gets the bins \<open>'auto'\<close>.
\<close>

theorem empty_integer_samples_draw_nothing:
  "plot_posterior_op (wrap_add 64) hpd_returns (IntSamples []) [] None ''hist'' (Some ''mean'')
       None None =
     ([], Some (ValueError
        ''zero-size array to reduction operation minimum which has no identity''))
   \<and> plot_posterior_op (wrap_add 64) hpd_returns (OtherSamples KindUnsigned 3) [] None ''hist''
       (Some ''mean'') None None =
     ([Hist BinsAuto, FormatAxes, HpdInterval, PointEstimateText ''mean''], None)"
  by code_simp

text \<open>
  C10 (as amended). With \<open>point_estimate='mode'\<close> the step \<open>display_point_estimate\<close> raises
  AttributeError at \<open>values.iloc[0]\<close>, leaving the axes as it found them. So a call of
  \<open>_plot_posterior_op\<close> with \<open>point_estimate='mode'\<close> never returns normally, and draws no
  point estimate, no reference value and no region of practical equivalence; whenever the
  density or histogram and the interval of highest posterior density have been drawn without
  an exception, the exception of the call is that AttributeError.
\<close>

theorem mode_point_estimate_raises:
  "display_point_estimate (Some ''mode'') vals ax = (ax, Some (AttributeError ''iloc''))
   \<and> snd (plot_posterior_op np_add hpd vals ax bins kind (Some ''mode'') rv rope) \<noteq> None
   \<and> (\<forall>d\<in>set (fst (plot_posterior_op np_add hpd vals [] bins kind (Some ''mode'') rv rope)).
        d \<noteq> RefValLine \<and> d \<noteq> RopeLine \<and> (\<forall>t. d \<noteq> PointEstimateText t))
   \<and> (snd (draw_distribution np_add vals kind bins ax) = None \<and> hpd vals = None \<longrightarrow>
        snd (plot_posterior_op np_add hpd vals ax bins kind (Some ''mode'') rv rope) =
          Some (AttributeError ''iloc''))"
proof (intro conjI)
  show "display_point_estimate (Some ''mode'') vals ax = (ax, Some (AttributeError ''iloc''))"
    by (rule display_point_estimate_mode)
next
  from plot_posterior_op_mode [of np_add hpd vals ax bins kind rv rope]
  show "snd (plot_posterior_op np_add hpd vals ax bins kind (Some ''mode'') rv rope) \<noteq> None"
    by (auto split: option.splits)
next
  from plot_posterior_op_mode [of np_add hpd vals "[]" bins kind rv rope]
  obtain rest where
    eq: "fst (plot_posterior_op np_add hpd vals [] bins kind (Some ''mode'') rv rope) =
           fst (draw_distribution np_add vals kind bins []) @ rest"
    and rest: "set rest \<subseteq> {FormatAxes, HpdInterval}"
    by auto
  from draw_distribution_draws [of np_add vals kind bins "[]"] rest
  show "\<forall>d\<in>set (fst (plot_posterior_op np_add hpd vals [] bins kind (Some ''mode'') rv rope)).
        d \<noteq> RefValLine \<and> d \<noteq> RopeLine \<and> (\<forall>t. d \<noteq> PointEstimateText t)"
    unfolding eq by auto
next
  from plot_posterior_op_mode [of np_add hpd vals ax bins kind rv rope]
  show "snd (draw_distribution np_add vals kind bins ax) = None \<and> hpd vals = None \<longrightarrow>
        snd (plot_posterior_op np_add hpd vals ax bins kind (Some ''mode'') rv rope) =
          Some (AttributeError ''iloc'')"
    by auto
qed

theorem mode_point_estimate_raises_witness:
  "snd (plot_posterior_op (wrap_add 64) hpd_returns (FloatSamples 4) [] None ''kde'' (Some ''mode'')
          (Some RefScalar) (Some RopePair)) = Some (AttributeError ''iloc'')
   \<and> PointEstimateText ''mode'' \<notin>
       set (fst (plot_posterior_op (wrap_add 64) hpd_returns (FloatSamples 4) [] None ''kde'' (Some ''mode'')
                   (Some RefScalar) (Some RopePair)))"
proof -
  note t = mode_point_estimate_raises [of "FloatSamples 4" "[]" "wrap_add 64" hpd_returns None "''kde''"
      "Some RefScalar" "Some RopePair"]
  have h: "snd (draw_distribution (wrap_add 64) (FloatSamples 4) ''kde'' None []) = None"
    "hpd_returns (FloatSamples 4) = None"
    by (simp_all add: draw_distribution_def hpd_returns_def)
  from t h have a: "snd (plot_posterior_op (wrap_add 64) hpd_returns (FloatSamples 4) [] None ''kde''
      (Some ''mode'') (Some RefScalar) (Some RopePair)) = Some (AttributeError ''iloc'')"
    by simp
  from t have b: "PointEstimateText ''mode'' \<notin>
       set (fst (plot_posterior_op (wrap_add 64) hpd_returns (FloatSamples 4) [] None ''kde'' (Some ''mode'')
                   (Some RefScalar) (Some RopePair)))"
    by blast
  from a b show ?thesis by (intro conjI)
qed

text \<open>
  The claim as first stated promised the AttributeError for every call with
  \<open>point_estimate='mode'\<close>. A call whose histogram step raises never reaches
  \<open>display_point_estimate\<close>: for an empty array of signed integers with \<open>bins=None\<close> the
  exception of the call is the ValueError of \<open>values.min()\<close>.
\<close>

theorem mode_not_reached_after_ValueError:
  "plot_posterior_op (wrap_add 64) hpd_returns (IntSamples []) [] None ''hist'' (Some ''mode'') None None =
     ([], Some (ValueError
        ''zero-size array to reduction operation minimum which has no identity''))"
  by code_simp


end
